theory Spec2Isabelle
  imports Complex_Main "HOL-Library.List_Lexorder" "HOL-Library.Char_ord"
begin

section \<open>Aggregation over indexed series: the model of \<^verbatim>\<open>pyam/_aggregate.py\<close>\<close>

text \<open>
  The module aggregates a \<^verbatim>\<open>pandas.Series\<close> of values indexed by a multi-level index
  (model, scenario, region, variable, unit, time and further columns such as a subannual
  time slice). The embedding follows the module function by function. Three layers are
  kept apart:

  \<^item> the index and series operations of pandas that the module calls (\<^verbatim>\<open>groupby\<close>,
    \<^verbatim>\<open>droplevel\<close>, boolean selection, aligned arithmetic, \<^verbatim>\<open>pivot_table\<close>, \<^verbatim>\<open>concat\<close>);
  \<^item> the helpers of \<^verbatim>\<open>pyam.utils\<close>, \<^verbatim>\<open>pyam.index\<close> and of the \<^verbatim>\<open>IamDataFrame\<close> class, whose
    code is outside the two source files; each is introduced by a comment that starts
    with "Modelled from the spec:";
  \<^item> the functions of \<^verbatim>\<open>_aggregate.py\<close> themselves, which keep their names without the
    leading underscore (an Isabelle name cannot start with one).

  Values are floats in the program and real numbers here, so rounding and overflow are
  outside the model, and the data is taken to hold no missing value. The one operation
  of the module that turns such data into an infinity or NaN, the division by a sum of
  weights that is zero, returns a value of the type \<open>fval\<close>, which has them. A raised
  exception is the left injection of a sum type, Python's \<^verbatim>\<open>None\<close> result is \<open>None\<close>, and
  the messages sent to the module's logger are returned as a list next to the result.
\<close>

subsection \<open>Index labels and their order\<close>

text \<open>
  A label of an index level is a string (model, scenario, region, variable, unit, time
  slice) or an integer (year). \<^verbatim>\<open>groupby\<close> sorts its group keys, so labels carry a linear
  order: integers and strings by their own orders (strings by code point, as in Python).
  One level never mixes the two kinds; the order puts integers first only to be total.
\<close>

datatype label = I int | S string

instantiation label :: linorder
begin

fun less_eq_label :: "label \<Rightarrow> label \<Rightarrow> bool" where
  "less_eq_label (I a) (I b) = (a \<le> b)"
| "less_eq_label (I a) (S b) = True"
| "less_eq_label (S a) (I b) = False"
| "less_eq_label (S a) (S b) = (a \<le> b)"

definition less_label :: "label \<Rightarrow> label \<Rightarrow> bool" where
  "less_label a b = (a \<le> b \<and> \<not> b \<le> a)"

instance
proof
  fix x y z :: label
  show "(x < y) = (x \<le> y \<and> \<not> y \<le> x)"
    by (simp add: less_label_def)
  show "x \<le> x"
    by (cases x) simp_all
  show "x \<le> y \<Longrightarrow> y \<le> z \<Longrightarrow> x \<le> z"
    by (cases x; cases y; cases z) simp_all
  show "x \<le> y \<Longrightarrow> y \<le> x \<Longrightarrow> x = y"
    by (cases x; cases y) simp_all
  show "x \<le> y \<or> y \<le> x"
    by (cases x; cases y) auto
qed

end

type_synonym key = "label list"

text \<open>
  A series is the list of its level names and the list of its rows in order, each row a
  key (one label per level) and a value. An \<^verbatim>\<open>IamDataFrame\<close> is modelled by its \<^verbatim>\<open>_data\<close>
  series, the only part of it the module reads; its long-format \<^verbatim>\<open>data\<close> frame has the
  level names and \<^verbatim>\<open>value\<close> as columns.
\<close>

record 'v frame =
  index_names :: "string list"
  rows :: "(key \<times> 'v) list"

type_synonym series = "real frame"

text \<open>
  The outcome of a float division: a number, an infinity or NaN. Dividing by zero gives
  an infinity with the sign of the dividend, and NaN for a dividend of zero.
\<close>

datatype fval = Fin real | PInf | NInf | NaN

definition float_div :: "real \<Rightarrow> real \<Rightarrow> fval" where
  "float_div x y =
     (if y \<noteq> 0 then Fin (x / y) else if 0 < x then PInf else if x < 0 then NInf else NaN)"

text \<open>A series of numbers as a series of float outcomes.\<close>

definition as_float :: "series \<Rightarrow> fval frame" where
  "as_float s = \<lparr>index_names = index_names s, rows = map (\<lambda>r. (fst r, Fin (snd r))) (rows s)\<rparr>"

subsection \<open>Errors, arguments that are a name or a list, reductions\<close>

datatype error =
    ValueError string
  | KeyError string
  | AttributeError string
  | TypeError string

text \<open>
  \<^verbatim>\<open>variable\<close> and \<^verbatim>\<open>by\<close> are a single string or a list-like of strings; \<^verbatim>\<open>isstr\<close> and
  \<^verbatim>\<open>islistable\<close> tell them apart and \<^verbatim>\<open>to_list\<close> wraps a single string. A set of names is
  the list of its elements without repetition; the order in which Python walks a set
  shows only in the order of the logged messages.
\<close>

datatype str_or_list = Single string | Listable "string list"

text \<open>Modelled from the spec: \<^verbatim>\<open>pyam.utils.isstr\<close>, true of a single name.\<close>

fun isstr :: "str_or_list \<Rightarrow> bool" where
  "isstr (Single s) = True"
| "isstr (Listable xs) = False"

text \<open>Modelled from the spec: \<^verbatim>\<open>pyam.utils.islistable\<close>, true of a set or list of names.\<close>

fun islistable :: "str_or_list \<Rightarrow> bool" where
  "islistable (Single s) = False"
| "islistable (Listable xs) = True"

text \<open>Modelled from the spec: \<^verbatim>\<open>pyam.utils.to_list\<close>, a single name becomes a one-element list.\<close>

fun to_list :: "str_or_list \<Rightarrow> string list" where
  "to_list (Single s) = [s]"
| "to_list (Listable xs) = xs"

text \<open>
  A reduction is one of the numpy functions the table of known names holds, or any other
  callable, which receives the values of a group in row order. A \<^verbatim>\<open>method\<close> argument is
  a string or such a function object.
\<close>

datatype func = np_sum | np_mean | np_max | np_min | callable "real list \<Rightarrow> real"

datatype method_arg = Name string | Func func

text \<open>
  Applying a reduction to the values of a group. pandas never calls it on an empty
  group, so the empty cases are only there to make the function total.
\<close>

fun apply_func :: "func \<Rightarrow> real list \<Rightarrow> real" where
  "apply_func np_sum xs = sum_list xs"
| "apply_func np_mean xs = sum_list xs / real (length xs)"
| "apply_func np_max [] = 0"
| "apply_func np_max (x # xs) = fold max xs x"
| "apply_func np_min [] = 0"
| "apply_func np_min (x # xs) = fold min xs x"
| "apply_func (callable f) xs = f xs"

text \<open>
  Modelled from the spec: the table \<^verbatim>\<open>pyam.utils.KNOWN_FUNCS\<close>. The spec names the
  standard reductions sum, mean, max and min.
\<close>

definition KNOWN_FUNCS :: "(string \<times> func) list" where
  "KNOWN_FUNCS = [(''min'', np_min), (''max'', np_max), (''mean'', np_mean), (''sum'', np_sum)]"

subsection \<open>The method resolver\<close>

text \<open>A string between single quotes, as the messages of the module format a name.\<close>

definition quoted :: "string \<Rightarrow> string" where
  "quoted s = CHR 0x27 # s @ [CHR 0x27]"

text \<open>
  \<^verbatim>\<open>_get_method_func\<close>: a non-string is returned as it is, a known name is looked up, any
  other string raises \<^verbatim>\<open>ValueError\<close>.
\<close>

definition get_method_func :: "method_arg \<Rightarrow> error + func" where
  "get_method_func m =
     (case m of
        Func f \<Rightarrow> Inr f
      | Name s \<Rightarrow>
          (case map_of KNOWN_FUNCS s of
             Some f \<Rightarrow> Inr f
           | None \<Rightarrow> Inl (ValueError (quoted s @ '' is not a known method!''))))"

subsection \<open>Index and series operations of pandas\<close>

text \<open>
  The position of a level name in the list of names, the label a key has at a level, and
  the key restricted to some levels in a given order. A key of a series has one label per
  level name, and the level names of a series are distinct; \<open>wf_series\<close> states it.
  A key has no label at a level that the series does not have (pandas raises \<^verbatim>\<open>KeyError\<close>
  there). The series of a data frame always has the levels model, scenario, region,
  variable and unit, and none named \<^verbatim>\<open>value\<close>; the functions below read these levels
  directly and test the presence of any other level before they read it.
\<close>

fun level_pos :: "string \<Rightarrow> string list \<Rightarrow> nat" where
  "level_pos c [] = 0"
| "level_pos c (n # ns) = (if n = c then 0 else Suc (level_pos c ns))"

definition get_level :: "string list \<Rightarrow> string \<Rightarrow> key \<Rightarrow> label" where
  "get_level ns c k = k ! level_pos c ns"

definition project :: "string list \<Rightarrow> string list \<Rightarrow> key \<Rightarrow> key" where
  "project ns cols k = map (\<lambda>c. get_level ns c k) cols"

definition wf_series :: "series \<Rightarrow> bool" where
  "wf_series s =
     (distinct (index_names s) \<and> list_all (\<lambda>r. length (fst r) = length (index_names s)) (rows s))"

text \<open>\<^verbatim>\<open>index.get_level_values(c)\<close>: the labels of one level, row by row.\<close>

definition get_level_values :: "series \<Rightarrow> string \<Rightarrow> label list" where
  "get_level_values s c = map (\<lambda>r. get_level (index_names s) c (fst r)) (rows s)"

text \<open>The strings among some labels.\<close>

fun strs :: "label list \<Rightarrow> string list" where
  "strs [] = []"
| "strs (S x # ls) = x # strs ls"
| "strs (I i # ls) = strs ls"

text \<open>\<^verbatim>\<open>names.difference(other)\<close> of a frozen list of names: the names not in \<open>other\<close>, in order.\<close>

definition difference :: "string list \<Rightarrow> string list \<Rightarrow> string list" where
  "difference ns other = filter (\<lambda>n. n \<notin> set other) ns"

text \<open>\<^verbatim>\<open>s[mask]\<close>: the rows of a series at which a boolean mask is true.\<close>

definition select :: "series \<Rightarrow> bool list \<Rightarrow> series" where
  "select s msk = s\<lparr>rows := map fst (filter snd (zip (rows s) msk))\<rparr>"

text \<open>\<^verbatim>\<open>s.index = idx\<close>: the keys of a series replaced row by row.\<close>

definition set_index :: "series \<Rightarrow> key list \<Rightarrow> series" where
  "set_index s idx = s\<lparr>rows := zip idx (map snd (rows s))\<rparr>"

text \<open>
  \<^verbatim>\<open>s.groupby(cols).agg(f)\<close>: the rows are grouped by their labels at the levels \<open>cols\<close>;
  the result has one row per group, the groups in sorted order of their keys, and the
  value of a group is \<open>f\<close> of the values of its rows in row order.
\<close>

definition group_keys :: "string list \<Rightarrow> series \<Rightarrow> key list" where
  "group_keys cols s = sort (remdups (map (\<lambda>r. project (index_names s) cols (fst r)) (rows s)))"

definition group_values :: "string list \<Rightarrow> series \<Rightarrow> key \<Rightarrow> real list" where
  "group_values cols s g =
     map snd (filter (\<lambda>r. project (index_names s) cols (fst r) = g) (rows s))"

definition groupby_agg :: "string list \<Rightarrow> func \<Rightarrow> series \<Rightarrow> series" where
  "groupby_agg cols f s =
     \<lparr>index_names = cols,
      rows = map (\<lambda>g. (g, apply_func f (group_values cols s g))) (group_keys cols s)\<rparr>"

subsection \<open>The grouped reducer\<close>

text \<open>\<^verbatim>\<open>s.groupby(cols)\<close> refuses an empty list of levels.\<close>

definition groupby :: "series \<Rightarrow> string list \<Rightarrow> func \<Rightarrow> error + series" where
  "groupby s cols f =
     (if cols = [] then Inl (ValueError ''No group keys passed!'') else Inr (groupby_agg cols f s))"

text \<open>
  \<^verbatim>\<open>_group_and_agg\<close>: group by every level that is not in \<open>by\<close> and reduce with the resolved
  method. \<^verbatim>\<open>groupby\<close> is called before the method is resolved.
\<close>

definition group_and_agg :: "series \<Rightarrow> str_or_list \<Rightarrow> method_arg \<Rightarrow> error + series" where
  "group_and_agg df by m =
     (let cols = filter (\<lambda>c. c \<notin> set (to_list by)) (index_names df) in
      if cols = [] then Inl (ValueError ''No group keys passed!'')
      else case get_method_func m of
             Inl e \<Rightarrow> Inl e
           | Inr f \<Rightarrow> groupby df cols f)"

subsection \<open>Helpers of the data frame and of the utilities\<close>

text \<open>
  Modelled from the spec: the \<^verbatim>\<open>variable\<close> property of an \<^verbatim>\<open>IamDataFrame\<close>, the variable
  names that occur in the data, each once.
\<close>

definition df_variable :: "series \<Rightarrow> string list" where
  "df_variable df = remdups (strs (get_level_values df ''variable''))"

text \<open>
  Modelled from the spec: the pattern \<^verbatim>\<open>V|*\<close>. A name matches when it starts with \<open>V\<close> and
  the separator.
\<close>

definition is_below :: "string \<Rightarrow> string \<Rightarrow> bool" where
  "is_below v x = (take (Suc (length v)) x = v @ ''|'')"

text \<open>
  Modelled from the spec: \<^verbatim>\<open>IamDataFrame._variable_components\<close>. The components of \<open>V\<close> are
  the variables of the data that match \<^verbatim>\<open>V|*\<close> with no further separator (level 0, the
  default: direct children only). A level \<open>n\<close> asks for \<open>n\<close> further separators, and
  the level override \<^verbatim>\<open>None\<close> drops the depth test and keeps every variable below \<open>V\<close>.
\<close>

definition variable_components :: "series \<Rightarrow> string \<Rightarrow> nat option \<Rightarrow> string list" where
  "variable_components df v level =
     filter (\<lambda>x. is_below v x \<and>
                 (case level of
                    None \<Rightarrow> True
                  | Some n \<Rightarrow> count_list (drop (Suc (length v)) x) CHR ''|'' = n))
       (df_variable df)"

text \<open>
  Modelled from the spec: \<^verbatim>\<open>IamDataFrame._apply_filters\<close> with one key-value filter, the
  mask of the rows whose label at the level is one of the given names.
\<close>

definition apply_filters :: "series \<Rightarrow> string \<Rightarrow> string list \<Rightarrow> bool list" where
  "apply_filters df c xs =
     map (\<lambda>r. get_level (index_names df) c (fst r) \<in> set (map S xs)) (rows df)"

text \<open>
  Modelled from the spec: \<^verbatim>\<open>pyam.index.replace_index_values\<close>, the index of a series with the
  labels of one level rewritten by a mapping; a label that is not a key of the mapping
  stays.
\<close>

fun replace_label :: "(string \<times> string) list \<Rightarrow> label \<Rightarrow> label" where
  "replace_label mapping (S x) = (case map_of mapping x of Some y \<Rightarrow> S y | None \<Rightarrow> S x)"
| "replace_label mapping (I i) = I i"

definition replace_index_values :: "series \<Rightarrow> string \<Rightarrow> (string \<times> string) list \<Rightarrow> key list" where
  "replace_index_values df c mapping =
     map (\<lambda>r. (fst r)[level_pos c (index_names df) := replace_label mapping (get_level (index_names df) c (fst r))])
       (rows df)"

text \<open>
  A Python dictionary as an association list in insertion order; \<^verbatim>\<open>d[k] = v\<close> replaces
  the value of a key that is present and appends a new key otherwise.
\<close>

fun dict_set :: "('k \<times> 'v) list \<Rightarrow> 'k \<Rightarrow> 'v \<Rightarrow> ('k \<times> 'v) list" where
  "dict_set [] k v = [(k, v)]"
| "dict_set (p # d) k v = (if fst p = k then (k, v) # d else p # dict_set d k v)"

subsection \<open>The variable aggregator\<close>

definition no_components_msg :: "string \<Rightarrow> string" where
  "no_components_msg v = ''Cannot aggregate variable '' @ quoted v @ '' because it has no components!''"

text \<open>
  The loop over a list of variables: a variable without components is logged and skipped,
  the components of any other variable are mapped to it.
\<close>

fun add_components ::
  "series \<Rightarrow> string list \<Rightarrow> string list \<times> (string \<times> string) list
     \<Rightarrow> string list \<times> (string \<times> string) list" where
  "add_components df [] (msgs, mapping) = (msgs, mapping)"
| "add_components df (v # vs) (msgs, mapping) =
     (let components = variable_components df v (Some 0) in
      if length components = 0 then add_components df vs (msgs @ [no_components_msg v], mapping)
      else add_components df vs (msgs, fold (\<lambda>c d. dict_set d c v) components mapping))"

text \<open>
  \<^verbatim>\<open>_aggregate\<close>. The result pairs the logged messages with the outcome: an error, \<^verbatim>\<open>None\<close>
  or the aggregated series. \<^verbatim>\<open>components or df._variable_components(variable)\<close> takes the
  default both when \<open>components\<close> is \<^verbatim>\<open>None\<close> and when it is an empty list.
\<close>

definition aggregate ::
  "series \<Rightarrow> str_or_list \<Rightarrow> string list option \<Rightarrow> method_arg
     \<Rightarrow> string list \<times> (error + series option)" where
  "aggregate df variable components m =
     (if islistable variable \<and> components \<noteq> None then
        ([], Inl (ValueError ''Aggregating by list of variables does not support `components`!''))
      else
        let (msgs, found) =
          (case variable of
             Single v \<Rightarrow>
               (let components =
                      (case components of
                         None \<Rightarrow> variable_components df v (Some 0)
                       | Some cs \<Rightarrow> if cs = [] then variable_components df v (Some 0) else cs)
                in if length components = 0 then ([no_components_msg v], None)
                   else ([], Some (fold (\<lambda>c d. dict_set d c v) components [])))
           | Listable vs \<Rightarrow>
               (let (msgs, mapping) = add_components df vs ([], []) in (msgs, Some mapping)))
        in case found of
             None \<Rightarrow> (msgs, Inr None)
           | Some mapping \<Rightarrow>
               (let df1 = select df (apply_filters df ''variable'' (map fst mapping));
                    df2 = set_index df1 (replace_index_values df1 ''variable'' mapping)
                in (msgs, map_sum id Some (group_and_agg df2 (Listable []) m))))"

subsection \<open>The recursive variable aggregator\<close>

text \<open>
  Modelled from the spec: \<^verbatim>\<open>pyam.utils.find_depth\<close> of one name, its depth in the
  hierarchy as the loop of the recursive aggregator counts it. The loop walks the depths
  down to depth 1 and takes the immediate parent of every variable of a depth, and the
  variables it works on match \<^verbatim>\<open>V|*\<close>: a variable of depth 1 has a parent, that is, one
  separator, and the depth of a name is the number of its separators. (The number of
  levels of a name, which the glossary of the specification calls its depth, is one
  more.)
\<close>

definition find_depth :: "string \<Rightarrow> nat" where
  "find_depth v = count_list v CHR ''|''"

text \<open>
  Modelled from the spec: \<^verbatim>\<open>pyam.utils.reduce_hierarchy(v, -1)\<close>, the name of the immediate
  parent: the last level of the name and its separator are stripped. The module calls it
  with the depth \<open>-1\<close> only. A name without a separator has the empty name as parent.
\<close>

definition reduce_hierarchy :: "string \<Rightarrow> string" where
  "reduce_hierarchy v = rev (drop 1 (dropWhile (\<lambda>c. c \<noteq> CHR ''|'') (rev v)))"

text \<open>
  Modelled from the spec: \<^verbatim>\<open>IamDataFrame.filter(variable="V|*")\<close>, the rows whose variable
  matches the pattern.
\<close>

definition df_filter_below :: "series \<Rightarrow> string \<Rightarrow> series" where
  "df_filter_below df v =
     select df (map (\<lambda>l. case l of S x \<Rightarrow> is_below v x | I i \<Rightarrow> False) (get_level_values df ''variable''))"

text \<open>
  Modelled from the spec: \<^verbatim>\<open>IamDataFrame.append(other, inplace=True)\<close>. The rows of the
  other data are added after the rows of the working dataset. A dataset holds no key
  twice: the append verifies the integrity of the result and raises \<^verbatim>\<open>ValueError\<close> when a
  key would occur twice (the message of pandas goes on to list these keys).
\<close>

definition df_append :: "series \<Rightarrow> series \<Rightarrow> error + series" where
  "df_append df other =
     (if distinct (map fst (rows df @ rows other)) then Inr (df\<lparr>rows := rows df @ rows other\<rparr>)
      else Inl (ValueError ''Indexes have overlapping values''))"

text \<open>
  Modelled from the spec: \<^verbatim>\<open>IamDataFrame.aggregate(variable=vars)\<close>, the variable aggregator
  called for a set of names with its default arguments.
\<close>

definition df_aggregate :: "series \<Rightarrow> string list \<Rightarrow> string list \<times> (error + series option)" where
  "df_aggregate df vars = aggregate df (Listable vars) None (Func np_sum)"

text \<open>\<^verbatim>\<open>pd.concat\<close> of a list of series with the same level names; an empty list is refused.\<close>

fun concat_series :: "series list \<Rightarrow> error + series" where
  "concat_series [] = Inl (ValueError ''No objects to concatenate'')"
| "concat_series (s # ss) = Inr \<lparr>index_names = index_names s, rows = concat (map rows (s # ss))\<rparr>"

text \<open>Python's \<^verbatim>\<open>max\<close> of a list of numbers; an empty list is refused.\<close>

fun py_max :: "nat list \<Rightarrow> error + nat" where
  "py_max [] = Inl (ValueError ''max() arg is an empty sequence'')"
| "py_max (x # xs) = Inr (fold max xs x)"

text \<open>
  The loop of \<^verbatim>\<open>_aggregate_recursive\<close> over the depths, deepest first. The state is the
  working dataset, the messages logged so far and the list of the results of the levels.
  The variable aggregator returns a series whenever it is given a list of names; the
  branch for \<^verbatim>\<open>None\<close> stands for the failure of appending nothing. An append that raises
  ends the loop.
\<close>

fun aggregate_levels ::
  "nat list \<Rightarrow> series \<Rightarrow> string list \<Rightarrow> series list \<Rightarrow> string list \<times> (error + series list)" where
  "aggregate_levels [] df msgs data_list = (msgs, Inr data_list)"
| "aggregate_levels (d # ds) df msgs data_list =
     (let vars = remdups (map reduce_hierarchy (filter (\<lambda>v. find_depth v = d) (df_variable df)))
      in case df_aggregate df vars of
           (logged, Inl e) \<Rightarrow> (msgs @ logged, Inl e)
         | (logged, Inr None) \<Rightarrow> (msgs @ logged, Inl (TypeError ''cannot append None''))
         | (logged, Inr (Some df1)) \<Rightarrow>
             (case df_append df df1 of
                Inl e \<Rightarrow> (msgs @ logged, Inl e)
              | Inr df2 \<Rightarrow> aggregate_levels ds df2 (msgs @ logged) (data_list @ [df1])))"

text \<open>
  \<^verbatim>\<open>_aggregate_recursive\<close>: the depths are fixed before the loop, from the variables of the
  filtered data.
\<close>

definition aggregate_recursive :: "series \<Rightarrow> string \<Rightarrow> string list \<times> (error + series)" where
  "aggregate_recursive df variable =
     (let df0 = df_filter_below df variable in
      case py_max (map find_depth (df_variable df0)) of
        Inl e \<Rightarrow> ([], Inl e)
      | Inr m \<Rightarrow>
          (case aggregate_levels (rev [1..<m + 1]) df0 [] [] of
             (msgs, Inl e) \<Rightarrow> (msgs, Inl e)
           | (msgs, Inr data_list) \<Rightarrow> (msgs, concat_series data_list)))"

subsection \<open>The weighted region aggregator\<close>

text \<open>
  \<^verbatim>\<open>s.droplevel(levels)\<close>: the named levels are removed from the names and from every key;
  a name that is not a level raises \<^verbatim>\<open>KeyError\<close>. (A series of the data frame has the six
  levels model, scenario, region, variable, unit and time at least, so the refusal of
  pandas to drop every level of an index is not reached.)
\<close>

definition droplevel :: "series \<Rightarrow> string list \<Rightarrow> error + series" where
  "droplevel s levels =
     (case filter (\<lambda>l. l \<notin> set (index_names s)) levels of
        l # ls \<Rightarrow> Inl (KeyError (''Level '' @ l @ '' not found''))
      | [] \<Rightarrow>
          (let keep = difference (index_names s) levels in
           Inr \<lparr>index_names = keep,
                rows = map (\<lambda>r. (project (index_names s) keep (fst r), snd r)) (rows s)\<rparr>))"

text \<open>\<^verbatim>\<open>a.index.equals(b.index)\<close>: the same keys in the same order.\<close>

definition index_equals :: "series \<Rightarrow> series \<Rightarrow> bool" where
  "index_equals a b = (map fst (rows a) = map fst (rows b))"

text \<open>
  Arithmetic of two series with different levels aligns them on the levels they share.
  The module only combines a series with one whose levels are among its own: a row of
  the left operand is paired with the rows of the right operand that carry its labels at
  the shared levels. pandas joins the two indexes on the shared levels: the result has
  the shared levels first, in the order of the left operand, and then the levels only
  the left operand has; its rows are in sorted order of the labels at the shared levels,
  and rows that agree there keep the order they have in the left operand. pandas fills
  the keys that find no partner with NaN; where the module multiplies and divides, the
  index check has made sure that every key finds one.
\<close>

definition align_with :: "(real \<Rightarrow> real \<Rightarrow> 'v) \<Rightarrow> series \<Rightarrow> series \<Rightarrow> 'v frame" where
  "align_with f a b =
     (let common = filter (\<lambda>n. n \<in> set (index_names b)) (index_names a);
          left_only = filter (\<lambda>n. n \<notin> set (index_names b)) (index_names a);
          pairs = concat (map (\<lambda>r. map (\<lambda>q. (r, q))
                                 (filter (\<lambda>q. project (index_names b) common (fst q)
                                              = project (index_names a) common (fst r)) (rows b)))
                            (rows a))
      in \<lparr>index_names = common @ left_only,
          rows = map (\<lambda>p. (project (index_names a) (common @ left_only) (fst (fst p)),
                           f (snd (fst p)) (snd (snd p))))
                   (sort_key (\<lambda>p. project (index_names a) common (fst (fst p))) pairs)\<rparr>)"

text \<open>\<^verbatim>\<open>a * b\<close> and \<^verbatim>\<open>a / b\<close>; the division is the division of floats.\<close>

definition series_mul :: "series \<Rightarrow> series \<Rightarrow> series" where
  "series_mul a b = align_with (\<lambda>x y. x * y) a b"

definition series_div :: "series \<Rightarrow> series \<Rightarrow> fval frame" where
  "series_div a b = align_with float_div a b"

text \<open>
  \<^verbatim>\<open>method in ["sum", np.sum]\<close>: the string \<^verbatim>\<open>"sum"\<close> or the function object \<^verbatim>\<open>np.sum\<close>
  itself.
\<close>

fun is_sum :: "method_arg \<Rightarrow> bool" where
  "is_sum (Name s) = (s = ''sum'')"
| "is_sum (Func np_sum) = True"
| "is_sum (Func f) = False"

text \<open>\<^verbatim>\<open>_agg_weight\<close>.\<close>

definition agg_weight :: "series \<Rightarrow> series \<Rightarrow> method_arg \<Rightarrow> error + fval frame" where
  "agg_weight data weight m =
     (if \<not> is_sum m then
        Inl (ValueError ''Only method 'np.sum' allowed for weighted average!'')
      else
        case droplevel weight [''variable'', ''unit''] of
          Inl e \<Rightarrow> Inl e
        | Inr weight1 \<Rightarrow>
            (case droplevel data [''variable'', ''unit''] of
               Inl e \<Rightarrow> Inl e
             | Inr data1 \<Rightarrow>
                 if \<not> index_equals data1 weight1 then
                   Inl (ValueError ''Inconsistent index between variable and weight!'')
                 else
                   let col1 = difference (index_names data) [''region''];
                       col2 = difference (index_names data) [''region'', ''variable'', ''unit'']
                   in case groupby (series_mul data weight1) col1 np_sum of
                        Inl e \<Rightarrow> Inl e
                      | Inr num \<Rightarrow>
                          (case groupby weight1 col2 np_sum of
                             Inl e \<Rightarrow> Inl e
                           | Inr den \<Rightarrow> Inr (series_div num den))))"

subsection \<open>The region aggregator\<close>

text \<open>
  The \<^verbatim>\<open>components\<close> argument of the region aggregator: \<^verbatim>\<open>False\<close> (the default), \<^verbatim>\<open>True\<close>,
  \<^verbatim>\<open>None\<close> or a list of names.
\<close>

datatype components_arg = CFalse | CTrue | CNone | CList "string list"

text \<open>
  Modelled from the spec: \<^verbatim>\<open>IamDataFrame.filter\<close> with one key-value filter, the rows whose
  label at the level is one of the given names.
\<close>

definition df_filter :: "series \<Rightarrow> string \<Rightarrow> string list \<Rightarrow> series" where
  "df_filter df c xs = select df (apply_filters df c xs)"

text \<open>
  Modelled from the spec: \<^verbatim>\<open>IamDataFrame._all_other_regions\<close>, all regions other than the
  target that contain data for the variable.
\<close>

definition all_other_regions :: "series \<Rightarrow> string \<Rightarrow> str_or_list \<Rightarrow> string list" where
  "all_other_regions df region variable =
     filter (\<lambda>r. r \<noteq> region)
       (remdups (strs (get_level_values
          (select df (apply_filters df ''variable'' (to_list variable))) ''region'')))"

text \<open>
  How an f-string prints the \<^verbatim>\<open>variable\<close> argument: a string as it is, a list in brackets
  with its names between quotes.
\<close>

fun join_with :: "string \<Rightarrow> string list \<Rightarrow> string" where
  "join_with sep [] = []"
| "join_with sep [x] = x"
| "join_with sep (x # y # ys) = x @ sep @ join_with sep (y # ys)"

fun py_str :: "str_or_list \<Rightarrow> string" where
  "py_str (Single s) = s"
| "py_str (Listable xs) = ''['' @ join_with '', '' (map quoted xs) @ '']''"

definition no_subregions_msg :: "str_or_list \<Rightarrow> string \<Rightarrow> string" where
  "no_subregions_msg variable region =
     ''Cannot aggregate variable '' @ quoted (py_str variable) @ '' to '' @ quoted region
       @ '' because it does not exist in any subregion!''"

text \<open>
  \<^verbatim>\<open>a.add(b, fill_value=0)\<close> for two series with the same levels and distinct keys: the
  keys of both in sorted order, a value that is missing on one side counts as zero.
\<close>

definition lookup0 :: "series \<Rightarrow> key \<Rightarrow> real" where
  "lookup0 s k = (case map_of (rows s) k of Some x \<Rightarrow> x | None \<Rightarrow> 0)"

definition series_add :: "series \<Rightarrow> series \<Rightarrow> series" where
  "series_add a b =
     \<lparr>index_names = index_names a,
      rows = map (\<lambda>k. (k, lookup0 a k + lookup0 b k))
               (sort (remdups (map fst (rows a) @ map fst (rows b))))\<rparr>"

text \<open>
  The second half of \<^verbatim>\<open>_aggregate_region\<close>: the components recorded at the target region
  are relabelled to the variable, summed and added to the aggregate of the subregions.
  With \<^verbatim>\<open>components=True\<close> they are the variables below the variable that the region has
  and the subregions do not have. \<^verbatim>\<open>len(None)\<close> is a type error.
\<close>

definition add_region_components ::
  "series \<Rightarrow> string \<Rightarrow> string \<Rightarrow> series \<Rightarrow> components_arg \<Rightarrow> series \<Rightarrow> error + series" where
  "add_region_components df variable region subregion_df components data =
     (let region_df = df_filter df ''region'' [region] in
      case (case components of
              CTrue \<Rightarrow>
                (let r_comps = variable_components region_df variable None;
                     sr_comps = variable_components subregion_df variable None
                 in Inr (filter (\<lambda>c. c \<notin> set sr_comps) (remdups r_comps)))
            | CList cs \<Rightarrow> Inr cs
            | CFalse \<Rightarrow> Inr []
            | CNone \<Rightarrow> Inl (TypeError ''object of type 'NoneType' has no len()''))
      of
        Inl e \<Rightarrow> Inl e
      | Inr components \<Rightarrow>
          if length components = 0 then Inr data
          else
            let rows1 = apply_filters region_df ''variable'' components;
                df1 = select region_df rows1;
                mapping = fold (\<lambda>c d. dict_set d c variable) components [];
                df2 = set_index df1 (replace_index_values df1 ''variable'' mapping)
            in case group_and_agg df2 (Single ''region'') (Func np_sum) of
                 Inl e \<Rightarrow> Inl e
               | Inr extra \<Rightarrow> Inr (series_add data extra))"

text \<open>
  \<^verbatim>\<open>_aggregate_region\<close>. \<^verbatim>\<open>subregions or df._all_other_regions(region, variable)\<close> takes the
  default both for \<^verbatim>\<open>None\<close> and for an empty list. The result is a series of float
  outcomes: the weighted average is a quotient, the aggregate without weights a series
  of numbers. Components are only added to an aggregate without weights, and to a
  variable that is a single name: the two checks at the entry have refused a weight with
  components and a list with components.
\<close>

definition aggregate_region ::
  "series \<Rightarrow> str_or_list \<Rightarrow> string \<Rightarrow> string list option \<Rightarrow> components_arg \<Rightarrow> method_arg
     \<Rightarrow> str_or_list option \<Rightarrow> string list \<times> (error + fval frame option)" where
  "aggregate_region df variable region subregions components m weight =
     (if \<not> isstr variable \<and> components \<noteq> CFalse then
        ([], Inl (ValueError ''Aggregating by list of variables with components is not supported!''))
      else if weight \<noteq> None \<and> components \<noteq> CFalse then
        ([], Inl (ValueError ''Using weights and components in one operation not supported!''))
      else
        let subregions =
              (case subregions of
                 None \<Rightarrow> all_other_regions df region variable
               | Some rs \<Rightarrow> if rs = [] then all_other_regions df region variable else rs)
        in if length subregions = 0 then ([no_subregions_msg variable region], Inr None)
           else
             let subregion_df = df_filter df ''region'' subregions;
                 rows1 = apply_filters subregion_df ''variable'' (to_list variable)
             in case weight of
                  Some w \<Rightarrow>
                    (let weight_rows = apply_filters subregion_df ''variable'' (to_list w)
                     in ([], map_sum id Some
                               (agg_weight (select subregion_df rows1)
                                  (select subregion_df weight_rows) m)))
                | None \<Rightarrow>
                    (case group_and_agg (select subregion_df rows1) (Single ''region'') m of
                       Inl e \<Rightarrow> ([], Inl e)
                     | Inr data \<Rightarrow>
                         if components = CFalse then ([], Inr (Some (as_float data)))
                         else
                           (case variable of
                              Listable vs \<Rightarrow>
                                ([], Inl (ValueError ''Aggregating by list of variables with components is not supported!''))
                            | Single v \<Rightarrow>
                                ([], map_sum id (\<lambda>s. Some (as_float s))
                                       (add_region_components df v region subregion_df components data)))))"

subsection \<open>The time aggregator\<close>

text \<open>
  Modelled from the spec: \<^verbatim>\<open>IamDataFrame.filter\<close> with several key-value filters, the rows
  that match every one of them. A filter on a column that the data does not have is
  refused.
\<close>

fun df_filter_args :: "series \<Rightarrow> (string \<times> string list) list \<Rightarrow> error + series" where
  "df_filter_args df [] = Inr df"
| "df_filter_args df ((c, xs) # args) =
     (if c \<notin> set (index_names df) then Inl (ValueError (''filter by `'' @ c @ ''` not supported''))
      else df_filter_args (df_filter df c xs) args)"

text \<open>
  \<^verbatim>\<open>data.pivot_table(index=index, columns=column).value.apply(f, axis=1)\<close>: one row per key
  of the levels \<open>index\<close>, in sorted order, and one cell per label of \<open>column\<close>, in sorted
  order; a cell holds the mean of the values recorded for it (one value, when keys are
  not repeated). The reduction is applied along each row; it gets the cells that hold a
  value, as the reductions of numpy skip the missing cells of a row in pandas.
\<close>

definition cell_values :: "series \<Rightarrow> string list \<Rightarrow> string \<Rightarrow> key \<Rightarrow> label \<Rightarrow> real list" where
  "cell_values s index column g c =
     map snd (filter (\<lambda>r. project (index_names s) index (fst r) = g
                          \<and> get_level (index_names s) column (fst r) = c) (rows s))"

definition pivot_apply :: "series \<Rightarrow> string list \<Rightarrow> string \<Rightarrow> func \<Rightarrow> series" where
  "pivot_apply s index column f =
     \<lparr>index_names = index,
      rows = map (\<lambda>g. (g, apply_func f
                            (map (\<lambda>c. apply_func np_mean (cell_values s index column g c))
                               (filter (\<lambda>c. cell_values s index column g c \<noteq> [])
                                  (sort (remdups (get_level_values s column)))))))
               (group_keys index s)\<rparr>"

text \<open>\<^verbatim>\<open>index.reorder_levels(order)\<close>: the levels of every key in the given order.\<close>

definition reorder_levels :: "series \<Rightarrow> string list \<Rightarrow> series" where
  "reorder_levels s order =
     \<lparr>index_names = order,
      rows = map (\<lambda>r. (project (index_names s) order (fst r), snd r)) (rows s)\<rparr>"

text \<open>
  Modelled from the spec: \<^verbatim>\<open>IamDataFrame._LONG_IDX\<close>, the original ordering of the
  dimensions, which is the list of the level names of the data.
\<close>

definition LONG_IDX :: "series \<Rightarrow> string list" where
  "LONG_IDX df = index_names df"

text \<open>
  \<^verbatim>\<open>_aggregate_time\<close>. The default components are read from the attribute \<^verbatim>\<open>subannual\<close> of
  the long-format frame, which exists when the data has a level of that name. The filter
  on \<open>column\<close> replaces the filter on the variable when \<open>column\<close> is \<^verbatim>\<open>"variable"\<close>. An
  empty selection has no \<^verbatim>\<open>value\<close> column to pivot. The method is resolved after the
  pivot and before the reduction is applied.
\<close>

definition aggregate_time ::
  "series \<Rightarrow> str_or_list \<Rightarrow> string \<Rightarrow> string \<Rightarrow> string list option \<Rightarrow> method_arg
     \<Rightarrow> error + series" where
  "aggregate_time df variable column value components m =
     (case (case components of
              Some cs \<Rightarrow> Inr cs
            | None \<Rightarrow>
                if ''subannual'' \<in> set (index_names df)
                then Inr (filter (\<lambda>x. x \<noteq> value) (remdups (strs (get_level_values df ''subannual''))))
                else Inl (AttributeError ''subannual''))
      of
        Inl e \<Rightarrow> Inl e
      | Inr components \<Rightarrow>
          (let filter_args = dict_set [(''variable'', to_list variable)] column components;
               index = difference (index_names df) [column, ''value'']
           in case df_filter_args df filter_args of
                Inl e \<Rightarrow> Inl e
              | Inr selected \<Rightarrow>
                  if rows selected = [] then Inl (AttributeError ''value'')
                  else
                    (case get_method_func m of
                       Inl e \<Rightarrow> Inl e
                     | Inr f \<Rightarrow>
                         (let reduced = pivot_apply selected index column f;
                              data = \<lparr>index_names = column # index,
                                      rows = map (\<lambda>r. (S value # fst r, snd r)) (rows reduced)\<rparr>
                          in Inr (reorder_levels data (LONG_IDX df))))))"


section \<open>Notions used to state the claims\<close>

text \<open>
  A direct child of \<open>V\<close> is a name \<^verbatim>\<open>V|x\<close> in which \<open>x\<close> has no separator. The values of the
  children of \<open>V\<close> at a key are the values of the rows whose variable is a direct child of
  \<open>V\<close> and whose key, with the variable relabelled to \<open>V\<close>, is that key.
\<close>

fun is_child :: "string \<Rightarrow> label \<Rightarrow> bool" where
  "is_child v (S x) = (is_below v x \<and> CHR ''|'' \<notin> set (drop (Suc (length v)) x))"
| "is_child v (I i) = False"

definition spec_children_values :: "series \<Rightarrow> string \<Rightarrow> key \<Rightarrow> real list" where
  "spec_children_values df v k =
     map snd (filter (\<lambda>r. is_child v (get_level (index_names df) ''variable'' (fst r))
                          \<and> (fst r)[level_pos ''variable'' (index_names df) := S v] = k) (rows df))"

text \<open>The index of a series after dropping the variable and unit dimensions.\<close>

definition dropped_index :: "series \<Rightarrow> key list" where
  "dropped_index s =
     map (\<lambda>r. project (index_names s) (difference (index_names s) [''variable'', ''unit'']) (fst r))
       (rows s)"

text \<open>
  The recursive aggregation in the words of the specification. The maximum depth present
  in a working dataset; the immediate parents of its variables at a depth; and the list
  of the results of the levels from a depth down to depth 1, deepest first, where each
  level aggregates the parents of its variables against the working dataset and the next
  level works on the dataset with that result appended. There is no list (\<open>None\<close>) when
  the result of a level cannot be appended, because it has a key that the working
  dataset already holds, or when the aggregator fails or returns nothing at a level.
\<close>

definition spec_max_depth :: "series \<Rightarrow> nat" where
  "spec_max_depth w = Max (set (map find_depth (df_variable w)))"

definition spec_parents_at :: "nat \<Rightarrow> series \<Rightarrow> string list" where
  "spec_parents_at d w = remdups (map reduce_hierarchy (filter (\<lambda>v. find_depth v = d) (df_variable w)))"

fun spec_bottom_up :: "nat \<Rightarrow> series \<Rightarrow> series list option" where
  "spec_bottom_up 0 w = Some []"
| "spec_bottom_up (Suc d) w =
     (case snd (aggregate w (Listable (spec_parents_at (Suc d) w)) None (Func np_sum)) of
        Inr (Some r) \<Rightarrow>
          if distinct (map fst (rows w @ rows r))
          then map_option (\<lambda>rs. r # rs) (spec_bottom_up d (w\<lparr>rows := rows w @ rows r\<rparr>))
          else None
      | Inr None \<Rightarrow> None
      | Inl e \<Rightarrow> None)"

text \<open>
  The weighted average the specification asks of the weighted region aggregator. Data
  and weight are aligned on the levels other than variable and unit: a row of the data
  goes with the rows of the weight that have its labels there (with the row at the same
  position, when the index check holds and no key of the weight is repeated). At a key
  \<open>g\<close> of the levels other than the region, the average is the sum of the products of
  data and weight over the aligned rows that \<open>g\<close> groups, divided as floats by the sum
  of the weights over the rows with the labels of \<open>g\<close> at the levels other than region,
  variable and unit. The result has the levels of the divisor first and then variable
  and unit.
\<close>

definition spec_aligned_rows :: "series \<Rightarrow> series \<Rightarrow> ((key \<times> real) \<times> (key \<times> real)) list" where
  "spec_aligned_rows data weight =
     (let ns = index_names data;
          keep = difference ns [''variable'', ''unit'']
      in concat (map (\<lambda>r. map (\<lambda>q. (r, q))
                            (filter (\<lambda>q. project ns keep (fst q) = project ns keep (fst r)) (rows weight)))
                       (rows data)))"

definition spec_weighted_average :: "series \<Rightarrow> series \<Rightarrow> key \<Rightarrow> fval" where
  "spec_weighted_average data weight g =
     (let ns = index_names data;
          col1 = difference ns [''region''];
          col2 = difference ns [''region'', ''variable'', ''unit'']
      in float_div
           (sum_list (map (\<lambda>p. snd (fst p) * snd (snd p))
                        (filter (\<lambda>p. project ns col1 (fst (fst p)) = g) (spec_aligned_rows data weight))))
           (sum_list (map snd (filter (\<lambda>q. project ns col2 (fst q) = project col1 col2 g) (rows weight)))))"

definition spec_result_levels :: "string list \<Rightarrow> string list" where
  "spec_result_levels ns =
     difference ns [''region'', ''variable'', ''unit'']
       @ filter (\<lambda>n. n \<in> set [''variable'', ''unit'']) (difference ns [''region''])"

subsection \<open>Example data\<close>

text \<open>
  One model, scenario and year. \<open>ex_children\<close> holds \<^verbatim>\<open>A|B = 1\<close> and \<^verbatim>\<open>A|C = 2\<close>; \<open>ex_regions\<close>
  holds a price and a population for two regions; \<open>ex_price\<close> and \<open>ex_pop\<close> hold them apart,
  and \<open>ex_nopop\<close> is a population of zero in both regions.
\<close>

definition ex_names :: "string list" where
  "ex_names = [''model'', ''scenario'', ''region'', ''variable'', ''unit'', ''year'']"

definition ex_key :: "string \<Rightarrow> string \<Rightarrow> string \<Rightarrow> key" where
  "ex_key r v u = [S ''model_a'', S ''scen_a'', S r, S v, S u, I 2005]"

definition ex_children :: series where
  "ex_children =
     \<lparr>index_names = ex_names,
      rows = [(ex_key ''World'' ''A|B'' ''EJ/yr'', 1), (ex_key ''World'' ''A|C'' ''EJ/yr'', 2)]\<rparr>"

definition ex_regions :: series where
  "ex_regions =
     \<lparr>index_names = ex_names,
      rows = [(ex_key ''r1'' ''Price'' ''USD'', 10), (ex_key ''r2'' ''Price'' ''USD'', 20),
              (ex_key ''r1'' ''Pop'' ''million'', 1), (ex_key ''r2'' ''Pop'' ''million'', 3)]\<rparr>"

definition ex_price :: series where
  "ex_price =
     \<lparr>index_names = ex_names,
      rows = [(ex_key ''r1'' ''Price'' ''USD'', 10), (ex_key ''r2'' ''Price'' ''USD'', 20)]\<rparr>"

definition ex_pop :: series where
  "ex_pop =
     \<lparr>index_names = ex_names,
      rows = [(ex_key ''r1'' ''Pop'' ''million'', 1), (ex_key ''r2'' ''Pop'' ''million'', 3)]\<rparr>"

definition ex_nopop :: series where
  "ex_nopop =
     \<lparr>index_names = ex_names,
      rows = [(ex_key ''r1'' ''Pop'' ''million'', 0), (ex_key ''r2'' ''Pop'' ''million'', 0)]\<rparr>"

text \<open>
  Data with a time-slice column. \<open>ex_seasons\<close> has the column \<^verbatim>\<open>season\<close> and no column
  \<^verbatim>\<open>subannual\<close>; \<open>ex_slices\<close> has both.
\<close>

definition ex_seasons :: series where
  "ex_seasons =
     \<lparr>index_names = ex_names @ [''season''],
      rows = [(ex_key ''World'' ''Price'' ''USD'' @ [S ''winter''], 1),
              (ex_key ''World'' ''Price'' ''USD'' @ [S ''summer''], 2)]\<rparr>"

definition ex_slices :: series where
  "ex_slices =
     \<lparr>index_names = ex_names @ [''subannual'', ''season''],
      rows = [(ex_key ''World'' ''Price'' ''USD'' @ [S ''winter'', S ''winter''], 1),
              (ex_key ''World'' ''Price'' ''USD'' @ [S ''winter'', S ''summer''], 2)]\<rparr>"

text \<open>\<open>ex_tree\<close> holds \<^verbatim>\<open>A|B|C = 1\<close>, \<^verbatim>\<open>A|B|D = 2\<close> and \<^verbatim>\<open>A|E = 3\<close>.\<close>

definition ex_tree :: series where
  "ex_tree =
     \<lparr>index_names = ex_names,
      rows = [(ex_key ''World'' ''A|B|C'' ''EJ/yr'', 1), (ex_key ''World'' ''A|B|D'' ''EJ/yr'', 2),
              (ex_key ''World'' ''A|E'' ''EJ/yr'', 3)]\<rparr>"

text \<open>\<open>ex_parent\<close> reports the parent \<^verbatim>\<open>A|B = 5\<close> beside its child \<^verbatim>\<open>A|B|C = 1\<close>.\<close>

definition ex_parent :: series where
  "ex_parent =
     \<lparr>index_names = ex_names,
      rows = [(ex_key ''World'' ''A|B|C'' ''EJ/yr'', 1), (ex_key ''World'' ''A|B'' ''EJ/yr'', 5)]\<rparr>"

section \<open>Lemmas\<close>

subsection \<open>Selection, relabelling and dictionaries\<close>

lemma select_map: "select s (map P (rows s)) = s\<lparr>rows := filter P (rows s)\<rparr>"
proof -
  have "map fst (filter snd (zip xs (map P xs))) = filter P xs" for xs :: "(key \<times> real) list"
    by (induction xs) simp_all
  then show ?thesis by (simp add: select_def)
qed

lemma apply_filters_select:
  "select df (apply_filters df c xs)
     = df\<lparr>rows := filter (\<lambda>r. get_level (index_names df) c (fst r) \<in> set (map S xs)) (rows df)\<rparr>"
  unfolding apply_filters_def by (rule select_map)

lemma zip_map_snd: "zip (map g xs) (map snd xs) = map (\<lambda>r. (g r, snd r)) xs"
  by (induction xs) simp_all

lemma set_index_replace:
  "set_index df (replace_index_values df c mapping)
     = df\<lparr>rows := map (\<lambda>r. ((fst r)[level_pos c (index_names df) :=
                                   replace_label mapping (get_level (index_names df) c (fst r))], snd r))
                       (rows df)\<rparr>"
  by (simp add: set_index_def replace_index_values_def zip_map_snd)

lemma map_of_dict_set: "map_of (dict_set d k v) x = (if x = k then Some v else map_of d x)"
  by (induction d) auto

lemma map_of_fold_dict_set:
  "map_of (fold (\<lambda>c d. dict_set d c v) cs d) x = (if x \<in> set cs then Some v else map_of d x)"
  by (induction cs arbitrary: d) (auto simp add: map_of_dict_set)

lemma keys_dict_set: "fst ` set (dict_set d k v) = insert k (fst ` set d)"
  by (induction d) auto

lemma keys_fold_dict_set:
  "fst ` set (fold (\<lambda>c d. dict_set d c v) cs d) = set cs \<union> fst ` set d"
  by (induction cs arbitrary: d) (simp_all add: keys_dict_set)

lemma map_of_keyed: "map_of (map (\<lambda>g. (g, F g)) gs) k = (if k \<in> set gs then Some (F k) else None)"
  by (induction gs) auto

subsection \<open>Levels and projections\<close>

lemma level_pos_nth: "distinct ns \<Longrightarrow> i < length ns \<Longrightarrow> level_pos (ns ! i) ns = i"
proof (induction ns arbitrary: i)
  case Nil
  then show ?case by simp
next
  case (Cons n ns)
  then show ?case by (cases i) auto
qed

lemma project_self: "distinct ns \<Longrightarrow> length k = length ns \<Longrightarrow> project ns ns k = k"
  by (rule nth_equalityI) (simp_all add: project_def get_level_def level_pos_nth)

subsection \<open>The variables of the data and the components of a variable\<close>

lemma strs_mem: "x \<in> set (strs ls) \<longleftrightarrow> S x \<in> set ls"
  by (induction ls rule: strs.induct) auto

lemma df_variable_mem:
  "x \<in> set (df_variable df) \<longleftrightarrow> (\<exists>r\<in>set (rows df). get_level (index_names df) ''variable'' (fst r) = S x)"
  by (force simp add: df_variable_def strs_mem get_level_values_def)

lemma selected_child:
  assumes "r \<in> set (rows df)"
  shows "get_level (index_names df) ''variable'' (fst r) \<in> S ` set (variable_components df v (Some 0))
           \<longleftrightarrow> is_child v (get_level (index_names df) ''variable'' (fst r))"
proof (cases "get_level (index_names df) ''variable'' (fst r)")
  case (I i)
  then show ?thesis by auto
next
  case (S x)
  with assms have "x \<in> set (df_variable df)"
    by (auto simp add: df_variable_mem)
  with S show ?thesis
    by (auto simp add: variable_components_def count_list_0_iff)
qed

subsection \<open>The variable aggregator\<close>

text \<open>
  For a single variable with components, the aggregator groups the rows of the direct
  children, relabelled to the variable.
\<close>

lemma aggregate_single:
  assumes "variable_components df v (Some 0) \<noteq> []"
  shows "aggregate df (Single v) None m =
     ([], map_sum id Some (group_and_agg
        (df\<lparr>rows := map (\<lambda>r. ((fst r)[level_pos ''variable'' (index_names df) := S v], snd r))
                       (filter (\<lambda>r. is_child v (get_level (index_names df) ''variable'' (fst r))) (rows df))\<rparr>)
        (Listable []) m))"
proof -
  let ?ns = "index_names df"
  let ?cs = "variable_components df v (Some 0)"
  let ?mapping = "fold (\<lambda>c d. dict_set d c v) ?cs []"
  let ?P = "\<lambda>r. is_child v (get_level ?ns ''variable'' (fst r))"
  let ?df1 = "select df (apply_filters df ''variable'' (map fst ?mapping))"
  have keys: "set (map S (map fst ?mapping)) = S ` set ?cs"
    using keys_fold_dict_set[of v ?cs "[]"] by (simp add: image_image[symmetric])
  have sel: "filter (\<lambda>r. get_level ?ns ''variable'' (fst r) \<in> set (map S (map fst ?mapping))) (rows df)
               = filter ?P (rows df)"
    unfolding keys by (rule filter_cong[OF refl]) (rule selected_child)
  have df1: "?df1 = df\<lparr>rows := filter ?P (rows df)\<rparr>"
    unfolding apply_filters_select sel ..
  have relabel: "replace_label ?mapping (get_level ?ns ''variable'' (fst r)) = S v"
    if "r \<in> set (rows df)" "?P r" for r
  proof (cases "get_level ?ns ''variable'' (fst r)")
    case (I i)
    with that show ?thesis by simp
  next
    case (S x)
    with that have "x \<in> set ?cs"
      using selected_child[of r df v] by auto
    with S show ?thesis by (simp add: map_of_fold_dict_set)
  qed
  have "set_index ?df1 (replace_index_values ?df1 ''variable'' ?mapping)
          = df\<lparr>rows := map (\<lambda>r. ((fst r)[level_pos ''variable'' ?ns := S v], snd r)) (filter ?P (rows df))\<rparr>"
    unfolding df1 set_index_replace by (simp add: relabel)
  then have "group_and_agg (set_index ?df1 (replace_index_values ?df1 ''variable'' ?mapping)) (Listable []) m
          = group_and_agg (df\<lparr>rows := map (\<lambda>r. ((fst r)[level_pos ''variable'' ?ns := S v], snd r))
                                         (filter ?P (rows df))\<rparr>) (Listable []) m"
    by (rule arg_cong[where f = "\<lambda>d. group_and_agg d (Listable []) m"])
  moreover have "aggregate df (Single v) None m =
      ([], map_sum id Some (group_and_agg (set_index ?df1 (replace_index_values ?df1 ''variable'' ?mapping))
             (Listable []) m))"
    using assms by (simp add: aggregate_def Let_def)
  ultimately show ?thesis by (simp only:)
qed

text \<open>For a list of variables: the messages, the skipped variables, the empty mapping.\<close>

lemma add_components_msgs:
  "fst (add_components df vs (msgs, d))
     = msgs @ map no_components_msg (filter (\<lambda>v. variable_components df v (Some 0) = []) vs)"
  by (induction vs arbitrary: msgs d) (simp_all add: Let_def)

lemma add_components_skip:
  "snd (add_components df vs (msgs, d))
     = snd (add_components df (filter (\<lambda>v. variable_components df v (Some 0) \<noteq> []) vs) (msgs', d))"
  by (induction vs arbitrary: msgs msgs' d) (simp_all add: Let_def)

lemma add_components_none:
  "\<forall>v\<in>set vs. variable_components df v (Some 0) = [] \<Longrightarrow>
     add_components df vs (msgs, d) = (msgs @ map no_components_msg vs, d)"
  by (induction vs arbitrary: msgs d) (simp_all add: Let_def)

lemma groupby_agg_empty:
  "groupby_agg cols f (s\<lparr>rows := []\<rparr>) = \<lparr>index_names = cols, rows = []\<rparr>"
  by (simp add: groupby_agg_def group_keys_def)

lemma aggregate_listable:
  "aggregate df (Listable vs) None m =
     (fst (add_components df vs ([], [])),
      (let mapping = snd (add_components df vs ([], []));
           df1 = select df (apply_filters df ''variable'' (map fst mapping));
           df2 = set_index df1 (replace_index_values df1 ''variable'' mapping)
       in map_sum id Some (group_and_agg df2 (Listable []) m)))"
  by (simp add: aggregate_def Let_def split: prod.splits)

subsection \<open>Dropping levels\<close>

lemma droplevel_present:
  assumes "set levels \<subseteq> set (index_names s)"
  shows "droplevel s levels =
     Inr \<lparr>index_names = difference (index_names s) levels,
          rows = map (\<lambda>r. (project (index_names s) (difference (index_names s) levels) (fst r), snd r))
                   (rows s)\<rparr>"
proof -
  from assms have "filter (\<lambda>l. l \<notin> set (index_names s)) levels = []"
    by (auto simp add: filter_empty_conv)
  then show ?thesis by (simp add: droplevel_def Let_def)
qed

lemma droplevel_index:
  assumes "set [''variable'', ''unit''] \<subseteq> set (index_names s)"
  shows "\<exists>s1. droplevel s [''variable'', ''unit''] = Inr s1 \<and> map fst (rows s1) = dropped_index s
           \<and> index_names s1 = difference (index_names s) [''variable'', ''unit'']"
  unfolding droplevel_present[OF assms] by (simp add: dropped_index_def comp_def)

subsection \<open>Aligned arithmetic\<close>

lemma level_pos_less: "c \<in> set ns \<Longrightarrow> level_pos c ns < length ns"
  by (induction ns) auto

lemma nth_level_pos: "c \<in> set ns \<Longrightarrow> ns ! level_pos c ns = c"
  by (induction ns) auto

lemma project_project:
  assumes "set cols \<subseteq> set ns'"
  shows "project ns' cols (project ns ns' k) = project ns cols k"
  unfolding project_def
proof (rule map_cong[OF refl])
  fix c assume "c \<in> set cols"
  with assms have c: "c \<in> set ns'" by auto
  show "get_level ns' c (map (\<lambda>c. get_level ns c k) ns') = get_level ns c k"
    by (simp add: get_level_def level_pos_less[OF c] nth_level_pos[OF c])
qed

lemma set_difference: "set (difference ns other) = set ns - set other"
  by (auto simp add: difference_def)

lemma concat_singletons:
  "length ys = length xs \<Longrightarrow> (\<And>i. i < length xs \<Longrightarrow> F (xs ! i) = [ys ! i]) \<Longrightarrow> concat (map F xs) = ys"
proof (induction xs arbitrary: ys)
  case Nil
  then show ?case by simp
next
  case (Cons x xs)
  then obtain y ys' where ys: "ys = y # ys'" by (cases ys) auto
  from Cons.prems(2)[of 0] ys have "F x = [y]" by simp
  moreover have "concat (map F xs) = ys'"
  proof (rule Cons.IH)
    show "length ys' = length xs" using Cons.prems(1) ys by simp
    show "F (xs ! i) = [ys' ! i]" if "i < length xs" for i
      using Cons.prems(2)[of "Suc i"] that ys by simp
  qed
  ultimately show ?case using ys by simp
qed

lemma insort_key_map:
  "insort_key f (g x) (map g xs) = map g (insort_key (\<lambda>x. f (g x)) x xs)"
  by (induction xs) simp_all

lemma sort_key_map: "sort_key f (map g xs) = map g (sort_key (\<lambda>x. f (g x)) xs)"
  by (induction xs) (simp_all add: insort_key_map)

lemma sum_list_filter_insort:
  fixes g :: "'a \<Rightarrow> real"
  shows "sum_list (map g (filter P (insort_key f x xs))) = sum_list (map g (filter P (x # xs)))"
  by (induction xs) (auto simp add: algebra_simps)

lemma sum_list_filter_sort:
  fixes g :: "'a \<Rightarrow> real"
  shows "sum_list (map g (filter P (sort_key f xs))) = sum_list (map g (filter P xs))"
proof (induction xs)
  case Nil
  then show ?case by simp
next
  case (Cons x xs)
  have "sum_list (map g (filter P (sort_key f (x # xs))))
          = sum_list (map g (filter P (x # sort_key f xs)))"
    by (simp add: sum_list_filter_insort)
  with Cons show ?case by simp
qed

lemma sort_remdups_cong: "set xs = set ys \<Longrightarrow> sort (remdups xs) = sort (remdups ys)"
  by (simp add: sorted_list_of_set_sort_remdups[symmetric])

lemma filter_distinct_on:
  "distinct (map f qs) \<Longrightarrow> i < length qs \<Longrightarrow> filter (\<lambda>q. f q = f (qs ! i)) qs = [qs ! i]"
proof (induction qs arbitrary: i)
  case Nil
  then show ?case by simp
next
  case (Cons q qs)
  show ?case
  proof (cases i)
    case 0
    from Cons.prems(1) have "f q \<notin> f ` set qs" by simp
    then have "\<forall>p\<in>set qs. f p \<noteq> f q" by (metis imageI)
    then have "filter (\<lambda>p. f p = f q) qs = []"
      by (simp add: filter_empty_conv)
    with 0 show ?thesis by simp
  next
    case (Suc j)
    with Cons.prems have j: "j < length qs" by simp
    then have "qs ! j \<in> set qs" by simp
    with Cons.prems(1) have "f q \<noteq> f (qs ! j)" by force
    with Suc Cons.IH[OF _ j] Cons.prems(1) show ?thesis by simp
  qed
qed

lemma filter_common:
  assumes "set B \<subseteq> set A"
  shows "filter (\<lambda>n. n \<in> set (difference ns A)) (difference ns B) = difference ns A"
  unfolding difference_def filter_filter
  by (rule filter_cong[OF refl]) (insert assms, auto)

lemma filter_keyed:
  "distinct ks \<Longrightarrow> h \<in> set ks \<Longrightarrow> filter (\<lambda>q. fst q = h) (map (\<lambda>k. (k, F k)) ks) = [(h, F h)]"
  by (induction ks) (auto simp add: filter_empty_conv)

subsection \<open>The recursive aggregator, level by level\<close>

lemma aggregate_listable_total:
  assumes "index_names df \<noteq> []"
  shows "\<exists>r. snd (aggregate df (Listable vs) None (Func np_sum)) = Inr (Some r)
           \<and> index_names r = index_names df"
  using assms
  by (simp add: aggregate_listable Let_def group_and_agg_def groupby_def get_method_func_def
      groupby_agg_def select_def set_index_def)

lemma rev_upt_Suc: "rev [1..<Suc d + 1] = Suc d # rev [1..<d + 1]"
  by simp

lemma parent_has_child:
  assumes "CHR ''|'' \<in> set c"
  shows "is_below (reduce_hierarchy c) c
         \<and> CHR ''|'' \<notin> set (drop (Suc (length (reduce_hierarchy c))) c)"
proof -
  let ?P = "\<lambda>x. x \<noteq> CHR ''|''"
  let ?l = "takeWhile ?P (rev c)"
  from assms have "dropWhile ?P (rev c) \<noteq> []"
    by (auto simp add: dropWhile_eq_Nil_conv)
  then obtain y rest where dw: "dropWhile ?P (rev c) = y # rest"
    by (cases "dropWhile ?P (rev c)") auto
  have "\<not> ?P (hd (dropWhile ?P (rev c)))"
    by (rule hd_dropWhile) (simp add: dw)
  with dw have y: "y = CHR ''|''" by simp
  have "rev c = ?l @ y # rest"
    using takeWhile_dropWhile_id[of ?P "rev c"] dw by simp
  then have "rev (rev c) = rev (?l @ y # rest)" by (rule arg_cong)
  then have c: "c = rev rest @ CHR ''|'' # rev ?l" using y by simp
  have p: "reduce_hierarchy c = rev rest"
    by (simp add: reduce_hierarchy_def dw)
  have l: "CHR ''|'' \<notin> set (rev ?l)"
    by (auto dest: set_takeWhileD)
  have "take (Suc (length (rev rest))) (rev rest @ CHR ''|'' # rev ?l) = rev rest @ ''|''"
    by simp
  moreover have "drop (Suc (length (rev rest))) (rev rest @ CHR ''|'' # rev ?l) = rev ?l"
    by simp
  ultimately show ?thesis
    unfolding is_below_def p using c l by metis
qed

lemma count_list_pos: "0 < count_list xs x \<longleftrightarrow> x \<in> set xs"
  using count_list_0_iff[of xs x] by auto

lemma aggregate_levels_step:
  assumes "aggregate w (Listable (spec_parents_at d w)) None (Func np_sum) = (logged, Inr (Some r))"
  shows "aggregate_levels (d # ds) w msgs acc =
           (case df_append w r of
              Inl e \<Rightarrow> (msgs @ logged, Inl e)
            | Inr w2 \<Rightarrow> aggregate_levels ds w2 (msgs @ logged) (acc @ [r]))"
  using assms by (simp add: df_aggregate_def spec_parents_at_def Let_def)

lemma parents_have_components:
  assumes "0 < d" and "p \<in> set (spec_parents_at d w)"
  shows "variable_components w p (Some 0) \<noteq> []"
proof -
  from assms(2) obtain c where c: "c \<in> set (df_variable w)" "find_depth c = d" "p = reduce_hierarchy c"
    by (auto simp add: spec_parents_at_def)
  with assms(1) have "0 < count_list c CHR ''|''"
    by (simp add: find_depth_def)
  then have "CHR ''|'' \<in> set c"
    by (simp only: count_list_pos)
  from parent_has_child[OF this] c(3)
  have "is_below p c" "count_list (drop (Suc (length p)) c) CHR ''|'' = 0"
    by (simp_all add: count_list_0_iff)
  with c(1) have "c \<in> set (variable_components w p (Some 0))"
    by (simp add: variable_components_def)
  then show ?thesis by auto
qed

lemma level_logs_nothing:
  assumes "0 < d"
  shows "fst (aggregate w (Listable (spec_parents_at d w)) None m) = []"
proof -
  have "filter (\<lambda>v. variable_components w v (Some 0) = []) (spec_parents_at d w) = []"
    using parents_have_components[OF assms] by (auto simp add: filter_empty_conv)
  then show ?thesis
    by (simp add: aggregate_listable add_components_msgs)
qed

lemma levels_bottom_up:
  assumes "index_names w \<noteq> []"
  shows "aggregate_levels (rev [1..<d + 1]) w msgs acc =
           (msgs, case spec_bottom_up d w of
                    Some rs \<Rightarrow> Inr (acc @ rs)
                  | None \<Rightarrow> Inl (ValueError ''Indexes have overlapping values''))
         \<and> (\<forall>rs. spec_bottom_up d w = Some rs \<longrightarrow>
               length rs = d \<and> (\<forall>r\<in>set rs. index_names r = index_names w))"
  using assms
proof (induction d arbitrary: w msgs acc)
  case 0
  then show ?case by simp
next
  case (Suc d)
  let ?vars = "spec_parents_at (Suc d) w"
  from aggregate_listable_total[OF Suc.prems, of ?vars] obtain r
    where r: "snd (aggregate w (Listable ?vars) None (Func np_sum)) = Inr (Some r)"
      and names: "index_names r = index_names w"
    by blast
  have "fst (aggregate w (Listable ?vars) None (Func np_sum)) = []"
    by (rule level_logs_nothing) simp
  with r have agg: "aggregate w (Listable ?vars) None (Func np_sum) = ([], Inr (Some r))"
    by (cases "aggregate w (Listable ?vars) None (Func np_sum)") simp
  have step: "aggregate_levels (rev [1..<Suc d + 1]) w msgs acc =
           (case df_append w r of
              Inl e \<Rightarrow> (msgs, Inl e)
            | Inr w2 \<Rightarrow> aggregate_levels (rev [1..<d + 1]) w2 msgs (acc @ [r]))"
    unfolding rev_upt_Suc by (simp only: aggregate_levels_step[OF agg] append_Nil2)
  show ?case
  proof (cases "distinct (map fst (rows w @ rows r))")
    case False
    then have app: "df_append w r = Inl (ValueError ''Indexes have overlapping values'')"
      by (simp only: df_append_def if_False)
    have a: "aggregate_levels (rev [1..<Suc d + 1]) w msgs acc
                 = (msgs, Inl (ValueError ''Indexes have overlapping values''))"
      by (simp only: step app sum.case)
    have b: "spec_bottom_up (Suc d) w = None"
      by (simp only: spec_bottom_up.simps r sum.case option.case False if_False)
    show ?thesis unfolding a b by simp
  next
    case True
    let ?w' = "w\<lparr>rows := rows w @ rows r\<rparr>"
    have w': "index_names ?w' \<noteq> []" using Suc.prems by simp
    from True have app: "df_append w r = Inr ?w'"
      by (simp only: df_append_def if_True)
    have a: "aggregate_levels (rev [1..<Suc d + 1]) w msgs acc
                 = aggregate_levels (rev [1..<d + 1]) ?w' msgs (acc @ [r])"
      by (simp only: step app sum.case)
    from Suc.IH[OF w', of msgs "acc @ [r]"]
    have eq: "aggregate_levels (rev [1..<d + 1]) ?w' msgs (acc @ [r]) =
           (msgs, case spec_bottom_up d ?w' of
                    Some rs \<Rightarrow> Inr ((acc @ [r]) @ rs)
                  | None \<Rightarrow> Inl (ValueError ''Indexes have overlapping values''))"
      and len: "\<forall>rs. spec_bottom_up d ?w' = Some rs \<longrightarrow>
               length rs = d \<and> (\<forall>x\<in>set rs. index_names x = index_names ?w')"
      by blast+
    have sb: "spec_bottom_up (Suc d) w = map_option (\<lambda>rs. r # rs) (spec_bottom_up d ?w')"
      by (simp only: spec_bottom_up.simps r sum.case option.case True if_True)
    show ?thesis
      unfolding a eq sb using len names
      by (cases "spec_bottom_up d ?w'") simp_all
  qed
qed

lemma filtered_variable_below:
  assumes "x \<in> set (df_variable (df_filter_below df v))"
  shows "is_below v x"
proof -
  have rows: "rows (df_filter_below df v)
           = filter (\<lambda>r. case get_level (index_names df) ''variable'' (fst r) of
                            S x \<Rightarrow> is_below v x | I i \<Rightarrow> False) (rows df)"
    by (simp add: df_filter_below_def get_level_values_def select_map comp_def)
  have names: "index_names (df_filter_below df v) = index_names df"
    by (simp add: df_filter_below_def select_def)
  from assms obtain r where "r \<in> set (rows (df_filter_below df v))"
    "get_level (index_names df) ''variable'' (fst r) = S x"
    unfolding df_variable_mem names by blast
  then show ?thesis unfolding rows by simp
qed

lemma below_has_separator: "is_below v x \<Longrightarrow> CHR ''|'' \<in> set x"
proof -
  assume "is_below v x"
  then have "CHR ''|'' \<in> set (take (Suc (length v)) x)"
    by (simp add: is_below_def)
  then show ?thesis by (rule in_set_takeD)
qed

section \<open>The claims\<close>

text \<open>
  C1: let the data have one label per level and distinct level names, among them the
  variable, and let \<open>V\<close> have children in the data. Then the variable aggregator, for the
  sum and for any other method that resolves to a reduction \<open>f\<close>, logs nothing and returns
  a series over the levels of the data, with sorted keys and no key twice, that holds at
  every key \<open>k\<close> the reduction of the values of the children of \<open>V\<close> whose key, relabelled
  to \<open>V\<close>, is \<open>k\<close>, and holds nothing at a key no child is relabelled to. The witness is
  the example of the specification: \<^verbatim>\<open>A|B = 1\<close> and \<^verbatim>\<open>A|C = 2\<close> yield \<^verbatim>\<open>A = 3\<close>.
\<close>

theorem aggregate_children:
  assumes wf: "wf_series df"
    and var: "''variable'' \<in> set (index_names df)"
    and children: "variable_components df v (Some 0) \<noteq> []"
    and resolves: "get_method_func m = Inr f"
  shows "\<exists>s. aggregate df (Single v) None m = ([], Inr (Some s))
           \<and> index_names s = index_names df
           \<and> sorted (map fst (rows s)) \<and> distinct (map fst (rows s))
           \<and> (\<forall>k. map_of (rows s) k =
                 (if spec_children_values df v k = [] then None
                  else Some (apply_func f (spec_children_values df v k))))"
proof -
  let ?ns = "index_names df"
  let ?P = "\<lambda>r. is_child v (get_level ?ns ''variable'' (fst r))"
  let ?relabel = "\<lambda>r::key \<times> real. ((fst r)[level_pos ''variable'' ?ns := S v], snd r)"
  let ?df2 = "df\<lparr>rows := map ?relabel (filter ?P (rows df))\<rparr>"
  let ?s = "groupby_agg ?ns f ?df2"
  from var have ns: "?ns \<noteq> []" by auto
  have len: "length (fst r) = length ?ns" if "r \<in> set (rows df)" for r
    using wf that by (auto simp add: wf_series_def list_all_iff)
  from wf have dist: "distinct ?ns" by (simp add: wf_series_def)
  have proj: "project ?ns ?ns ((fst r)[level_pos ''variable'' ?ns := S v])
                = (fst r)[level_pos ''variable'' ?ns := S v]" if "r \<in> set (rows df)" for r
    using that by (simp add: project_self dist len)
  have run: "aggregate df (Single v) None m = ([], Inr (Some ?s))"
    using ns resolves by (simp add: aggregate_single[OF children] group_and_agg_def groupby_def Let_def)
  have keymap: "map (\<lambda>r. project ?ns ?ns (fst r)) (map ?relabel (filter ?P (rows df)))
                  = map (\<lambda>r. (fst r)[level_pos ''variable'' ?ns := S v]) (filter ?P (rows df))"
    unfolding map_map by (rule map_cong[OF refl]) (simp add: proj)
  have keys: "group_keys ?ns ?df2
                = sort (remdups (map (\<lambda>r. (fst r)[level_pos ''variable'' ?ns := S v]) (filter ?P (rows df))))"
  proof -
    have "group_keys ?ns ?df2
            = sort (remdups (map (\<lambda>r. project ?ns ?ns (fst r)) (map ?relabel (filter ?P (rows df)))))"
      by (simp add: group_keys_def)
    then show ?thesis by (simp only: keymap)
  qed
  have vals: "group_values ?ns ?df2 k = spec_children_values df v k" for k
  proof -
    have "filter (\<lambda>r. ?P r \<and> project ?ns ?ns ((fst r)[level_pos ''variable'' ?ns := S v]) = k) (rows df)
            = filter (\<lambda>r. ?P r \<and> (fst r)[level_pos ''variable'' ?ns := S v] = k) (rows df)"
      by (rule filter_cong[OF refl]) (simp add: proj)
    then show ?thesis
      by (simp add: group_values_def spec_children_values_def filter_map comp_def)
  qed
  have mem: "k \<in> set (group_keys ?ns ?df2) \<longleftrightarrow> spec_children_values df v k \<noteq> []" for k
    unfolding keys spec_children_values_def by (auto simp add: filter_empty_conv)
  have "map_of (rows ?s) k =
          (if spec_children_values df v k = [] then None else Some (apply_func f (spec_children_values df v k)))" for k
    by (simp add: groupby_agg_def map_of_keyed mem vals)
  moreover have "sorted (map fst (rows ?s))" "distinct (map fst (rows ?s))"
    by (simp_all add: groupby_agg_def comp_def group_keys_def)
  moreover have "index_names ?s = ?ns"
    by (simp add: groupby_agg_def)
  ultimately show ?thesis using run by blast
qed

theorem aggregate_children_witness:
  "wf_series ex_children \<and> ''variable'' \<in> set (index_names ex_children)
   \<and> variable_components ex_children ''A'' (Some 0) = [''A|B'', ''A|C'']
   \<and> get_method_func (Func np_sum) = Inr np_sum
   \<and> spec_children_values ex_children ''A'' (ex_key ''World'' ''A'' ''EJ/yr'') = [1, 2]
   \<and> aggregate ex_children (Single ''A'') None (Func np_sum)
       = ([], Inr (Some \<lparr>index_names = ex_names, rows = [(ex_key ''World'' ''A'' ''EJ/yr'', 3)]\<rparr>))"
proof -
  have h1: "wf_series ex_children" by code_simp
  have h2: "''variable'' \<in> set (index_names ex_children)" by code_simp
  have h3: "variable_components ex_children ''A'' (Some 0) = [''A|B'', ''A|C'']" by code_simp
  then have h3': "variable_components ex_children ''A'' (Some 0) \<noteq> []" by simp
  have h4: "get_method_func (Func np_sum) = Inr np_sum" by (simp add: get_method_func_def)
  have cv: "spec_children_values ex_children ''A'' (ex_key ''World'' ''A'' ''EJ/yr'') = [1, 2]" by code_simp
  from aggregate_children[OF h1 h2 h3' h4] obtain s
    where s: "aggregate ex_children (Single ''A'') None (Func np_sum) = ([], Inr (Some s))"
      and names: "index_names s = index_names ex_children"
      and keys: "sorted (map fst (rows s))" "distinct (map fst (rows s))"
      and look: "\<And>k. map_of (rows s) k =
                 (if spec_children_values ex_children ''A'' k = [] then None
                  else Some (apply_func np_sum (spec_children_values ex_children ''A'' k)))"
    by blast
  have ev: "aggregate ex_children (Single ''A'') None (Func np_sum)
       = ([], Inr (Some \<lparr>index_names = ex_names, rows = [(ex_key ''World'' ''A'' ''EJ/yr'', 3)]\<rparr>))"
    by code_simp
  from h1 h2 h3 h4 cv ev s show ?thesis by simp
qed

text \<open>
  C2, amended: let the data have a level and let some variable of the data match \<^verbatim>\<open>V|*\<close>.
  The recursive aggregator restricts the data to the rows whose variable matches \<^verbatim>\<open>V|*\<close>;
  the maximum depth present is at least 1. It walks the depths from the maximum down to
  depth 1: each level aggregates the immediate parents of the variables of its depth in
  the working dataset, and the next level works on the dataset with that result
  appended. When the result of a level has a key that the working dataset already holds,
  the append raises \<^verbatim>\<open>ValueError\<close> and this is the outcome of the call. Otherwise there is
  one result per depth, and the call returns the series over the levels of the data whose
  rows are the concatenation of these results, deepest level first. Nothing is logged in
  either case. The example of the specification: over \<^verbatim>\<open>A|B|C = 1\<close>, \<^verbatim>\<open>A|B|D = 2\<close>,
  \<^verbatim>\<open>A|E = 3\<close> the rows are \<^verbatim>\<open>A|B = 3\<close>, then \<^verbatim>\<open>A = 6\<close>.
\<close>

theorem aggregate_recursive_bottom_up:
  assumes names: "index_names df \<noteq> []"
    and below: "df_variable (df_filter_below df v) \<noteq> []"
  shows "rows (df_filter_below df v)
           = filter (\<lambda>r. case get_level (index_names df) ''variable'' (fst r) of
                            S x \<Rightarrow> is_below v x | I i \<Rightarrow> False) (rows df)
         \<and> 0 < spec_max_depth (df_filter_below df v)
         \<and> aggregate_recursive df v =
             ([], case spec_bottom_up (spec_max_depth (df_filter_below df v)) (df_filter_below df v) of
                    Some rs \<Rightarrow> Inr \<lparr>index_names = index_names df, rows = concat (map rows rs)\<rparr>
                  | None \<Rightarrow> Inl (ValueError ''Indexes have overlapping values''))
         \<and> (\<forall>rs. spec_bottom_up (spec_max_depth (df_filter_below df v)) (df_filter_below df v) = Some rs
               \<longrightarrow> length rs = spec_max_depth (df_filter_below df v))"
proof -
  let ?w = "df_filter_below df v"
  let ?m = "spec_max_depth ?w"
  have restricted: "rows ?w
           = filter (\<lambda>r. case get_level (index_names df) ''variable'' (fst r) of
                            S x \<Rightarrow> is_below v x | I i \<Rightarrow> False) (rows df)"
    by (simp add: df_filter_below_def get_level_values_def select_map comp_def)
  have w: "index_names ?w = index_names df"
    by (simp add: df_filter_below_def select_def)
  with names have w': "index_names ?w \<noteq> []" by simp
  from below obtain x xs where vars: "df_variable ?w = x # xs"
    by (cases "df_variable ?w") auto
  have "Max (set (find_depth x # map find_depth xs)) = fold max (map find_depth xs) (find_depth x)"
    by (rule Max.set_eq_fold)
  then have pm: "py_max (map find_depth (df_variable ?w)) = Inr ?m"
    unfolding vars spec_max_depth_def by simp
  have pos: "0 < ?m"
  proof -
    have "x \<in> set (df_variable ?w)" unfolding vars by simp
    then have "CHR ''|'' \<in> set x"
      by (intro below_has_separator filtered_variable_below)
    then have "0 < find_depth x"
      by (simp add: find_depth_def count_list_pos)
    moreover have "find_depth x \<in> set (map find_depth (df_variable ?w))"
      unfolding vars by simp
    then have "find_depth x \<le> ?m"
      unfolding spec_max_depth_def by (intro Max_ge) auto
    ultimately show ?thesis by simp
  qed
  from levels_bottom_up[OF w', of ?m "[]" "[]"]
  have lv: "aggregate_levels (rev [1..<?m + 1]) ?w [] [] =
           ([], case spec_bottom_up ?m ?w of
                    Some rs \<Rightarrow> Inr ([] @ rs)
                  | None \<Rightarrow> Inl (ValueError ''Indexes have overlapping values''))"
    and lens: "\<forall>rs. spec_bottom_up ?m ?w = Some rs \<longrightarrow>
               length rs = ?m \<and> (\<forall>r\<in>set rs. index_names r = index_names ?w)"
    by blast+
  have unfold: "aggregate_recursive df v =
      (case aggregate_levels (rev [1..<?m + 1]) ?w [] [] of
             (msgs, Inl e) \<Rightarrow> (msgs, Inl e)
           | (msgs, Inr data_list) \<Rightarrow> (msgs, concat_series data_list))"
    by (simp only: aggregate_recursive_def Let_def pm sum.case)
  have run: "aggregate_recursive df v =
             ([], case spec_bottom_up ?m ?w of
                    Some rs \<Rightarrow> Inr \<lparr>index_names = index_names df, rows = concat (map rows rs)\<rparr>
                  | None \<Rightarrow> Inl (ValueError ''Indexes have overlapping values''))"
  proof (cases "spec_bottom_up ?m ?w")
    case None
    show ?thesis unfolding unfold lv None by simp
  next
    case (Some rs)
    with lens have len: "length rs = ?m" and nm: "\<forall>r\<in>set rs. index_names r = index_names ?w"
      by simp_all
    from len pos obtain r rs' where cons: "rs = r # rs'" by (cases rs) auto
    with nm w have "index_names r = index_names df" by simp
    then show ?thesis unfolding unfold lv Some cons by simp
  qed
  from lens have "\<forall>rs. spec_bottom_up ?m ?w = Some rs \<longrightarrow> length rs = ?m" by simp
  with restricted pos run show ?thesis by simp
qed

theorem aggregate_recursive_bottom_up_witness:
  "index_names ex_tree \<noteq> []
   \<and> df_variable (df_filter_below ex_tree ''A'') = [''A|B|C'', ''A|B|D'', ''A|E'']
   \<and> spec_max_depth (df_filter_below ex_tree ''A'') = 2
   \<and> spec_bottom_up 2 (df_filter_below ex_tree ''A'')
       = Some [\<lparr>index_names = ex_names, rows = [(ex_key ''World'' ''A|B'' ''EJ/yr'', 3)]\<rparr>,
               \<lparr>index_names = ex_names, rows = [(ex_key ''World'' ''A'' ''EJ/yr'', 6)]\<rparr>]
   \<and> aggregate_recursive ex_tree ''A''
       = ([], Inr \<lparr>index_names = ex_names,
                   rows = [(ex_key ''World'' ''A|B'' ''EJ/yr'', 3), (ex_key ''World'' ''A'' ''EJ/yr'', 6)]\<rparr>)"
proof -
  let ?w = "df_filter_below ex_tree ''A''"
  have h1: "index_names ex_tree \<noteq> []" by code_simp
  have h2: "df_variable ?w = [''A|B|C'', ''A|B|D'', ''A|E'']" by code_simp
  then have h2': "df_variable ?w \<noteq> []" by simp
  have h3: "spec_max_depth ?w = 2" by code_simp
  have h4: "spec_bottom_up 2 ?w
       = Some [\<lparr>index_names = ex_names, rows = [(ex_key ''World'' ''A|B'' ''EJ/yr'', 3)]\<rparr>,
               \<lparr>index_names = ex_names, rows = [(ex_key ''World'' ''A'' ''EJ/yr'', 6)]\<rparr>]"
    by code_simp
  have h5: "index_names ex_tree = ex_names" by (simp add: ex_tree_def)
  from aggregate_recursive_bottom_up[OF h1 h2']
  have "aggregate_recursive ex_tree ''A'' =
             ([], case spec_bottom_up (spec_max_depth ?w) ?w of
                    Some rs \<Rightarrow> Inr \<lparr>index_names = index_names ex_tree, rows = concat (map rows rs)\<rparr>
                  | None \<Rightarrow> Inl (ValueError ''Indexes have overlapping values''))"
    by blast
  then have "aggregate_recursive ex_tree ''A''
       = ([], Inr \<lparr>index_names = ex_names,
                   rows = [(ex_key ''World'' ''A|B'' ''EJ/yr'', 3), (ex_key ''World'' ''A'' ''EJ/yr'', 6)]\<rparr>)"
    unfolding h3 h4 h5 by simp
  with h1 h2 h3 h4 show ?thesis by simp
qed

text \<open>
  The claim as it stands promises the concatenation for every dataset. Over
  \<^verbatim>\<open>A|B|C = 1\<close> and \<^verbatim>\<open>A|B = 5\<close> the deepest level computes \<^verbatim>\<open>A|B = 1\<close>, a key the data
  already holds, and the call raises.
\<close>

theorem aggregate_recursive_overlap_counterexample:
  "aggregate_recursive ex_parent ''A'' = ([], Inl (ValueError ''Indexes have overlapping values''))"
  by code_simp

text \<open>
  C3: let data and weight have the same levels, among them model, variable and unit, let
  the method be the sum, and let the index of the weight without variable and unit equal
  that of the data. Then the weighted region aggregator returns a series with one row per
  group of the data over the levels other than the region: the products of data and
  weight over the aligned rows of the group, summed, divided as floats by the sum of the
  weights over the rows with the same labels at the levels other than region, variable
  and unit (infinite or not a number when that sum is zero). The levels of the result
  are those of the divisor followed by variable and unit, and the rows are in sorted
  order of the labels at the levels of the divisor, then in that of the groups. When the
  index of the weight without variable and unit holds no key twice, the aligned rows are
  the rows of data and weight at the same position: the product is elementwise.
\<close>

theorem agg_weight_weighted_average:
  assumes names: "index_names weight = index_names data"
    and levels: "set [''model'', ''variable'', ''unit''] \<subseteq> set (index_names data)"
    and sum: "is_sum m"
    and check: "dropped_index weight = dropped_index data"
  shows "agg_weight data weight m =
           Inr \<lparr>index_names = spec_result_levels (index_names data),
                rows = map (\<lambda>g. (project (difference (index_names data) [''region''])
                                     (spec_result_levels (index_names data)) g,
                                 spec_weighted_average data weight g))
                         (sort_key (project (difference (index_names data) [''region''])
                                      (difference (index_names data) [''region'', ''variable'', ''unit'']))
                            (group_keys (difference (index_names data) [''region'']) data))\<rparr>
         \<and> (distinct (dropped_index weight) \<longrightarrow>
               spec_aligned_rows data weight = zip (rows data) (rows weight))"
proof -
  let ?ns = "index_names data"
  let ?keep = "difference ?ns [''variable'', ''unit'']"
  let ?col1 = "difference ?ns [''region'']"
  let ?col2 = "difference ?ns [''region'', ''variable'', ''unit'']"
  let ?lo = "filter (\<lambda>n. n \<notin> set ?keep) ?ns"
  let ?lo1 = "filter (\<lambda>n. n \<in> set [''variable'', ''unit'']) ?col1"
  let ?dropq = "\<lambda>q::key \<times> real. (project ?ns ?keep (fst q), snd q)"
  let ?w1 = "\<lparr>index_names = ?keep, rows = map ?dropq (rows weight)\<rparr>"
  let ?d1 = "\<lparr>index_names = ?keep, rows = map ?dropq (rows data)\<rparr>"
  let ?A = "spec_aligned_rows data weight"
  let ?Pm = "map (\<lambda>p. (fst p, ?dropq (snd p))) ?A"
  let ?hm = "\<lambda>p::(key \<times> real) \<times> (key \<times> real).
               (project ?ns (?keep @ ?lo) (fst (fst p)), snd (fst p) * snd (snd p))"
  let ?km = "\<lambda>p::(key \<times> real) \<times> (key \<times> real). project ?ns ?keep (fst (fst p))"
  let ?prod = "\<lparr>index_names = ?keep @ ?lo, rows = map ?hm (sort_key ?km ?Pm)\<rparr>"
  let ?N = "\<lambda>g. sum_list (map (\<lambda>p. snd (fst p) * snd (snd p))
                    (filter (\<lambda>p. project ?ns ?col1 (fst (fst p)) = g) ?A))"
  let ?D = "\<lambda>h. sum_list (map snd (filter (\<lambda>q. project ?ns ?col2 (fst q) = h) (rows weight)))"
  have col1: "?col1 \<noteq> []" and col2: "?col2 \<noteq> []"
    using levels set_difference[of ?ns "[''region'']"]
      set_difference[of ?ns "[''region'', ''variable'', ''unit'']"]
    by (auto simp add: set_empty[symmetric] simp del: set_empty)
  have sub21: "set ?col2 \<subseteq> set ?col1" and sub2k: "set ?col2 \<subseteq> set ?keep"
    by (auto simp add: set_difference)
  have setP: "set (?keep @ ?lo) = set ?ns"
    by (auto simp add: set_difference)
  then have sub1P: "set ?col1 \<subseteq> set (?keep @ ?lo)"
    by (auto simp add: set_difference)
  have dw: "droplevel weight [''variable'', ''unit''] = Inr ?w1"
    using levels droplevel_present[of "[''variable'', ''unit'']" weight] by (simp add: names)
  have dd: "droplevel data [''variable'', ''unit''] = Inr ?d1"
    using levels droplevel_present[of "[''variable'', ''unit'']" data] by simp
  have keys_eq: "map (\<lambda>q. project ?ns ?keep (fst q)) (rows weight)
                   = map (\<lambda>q. project ?ns ?keep (fst q)) (rows data)"
    using check by (simp add: dropped_index_def names)
  then have len: "length (rows weight) = length (rows data)"
    by (rule map_eq_imp_length_eq)
  have eq: "index_equals ?d1 ?w1"
    using keys_eq by (simp add: index_equals_def comp_def)
  have key_i: "project ?ns ?keep (fst (rows weight ! i)) = project ?ns ?keep (fst (rows data ! i))"
    if "i < length (rows data)" for i
    using arg_cong[OF keys_eq, of "\<lambda>l. l ! i"] that len by simp
  have fstA: "fst ` set ?A = set (rows data)"
  proof
    show "fst ` set ?A \<subseteq> set (rows data)"
      by (auto simp add: spec_aligned_rows_def Let_def)
    show "set (rows data) \<subseteq> fst ` set ?A"
    proof
      fix r assume "r \<in> set (rows data)"
      then obtain i where i: "i < length (rows data)" "rows data ! i = r"
        by (auto simp add: in_set_conv_nth)
      have "rows weight ! i \<in> set (rows weight)" using i(1) len by simp
      with key_i[OF i(1)] i(2) have "(r, rows weight ! i) \<in> set ?A"
        using \<open>r \<in> set (rows data)\<close> by (auto simp add: spec_aligned_rows_def Let_def)
      then show "r \<in> fst ` set ?A" by force
    qed
  qed
  have common_m: "filter (\<lambda>n. n \<in> set ?keep) ?ns = ?keep"
    unfolding difference_def by (rule filter_cong[OF refl]) auto
  have pairs_m: "concat (map (\<lambda>r. map (\<lambda>q. (r, q))
                                 (filter (\<lambda>q. project ?keep ?keep (fst q) = project ?ns ?keep (fst r))
                                    (map ?dropq (rows weight))))
                            (rows data)) = ?Pm"
    by (simp add: spec_aligned_rows_def Let_def filter_map comp_def map_concat project_project)
  have mul: "series_mul data ?w1 = ?prod"
    unfolding series_mul_def align_with_def Let_def frame.simps common_m pairs_m ..
  have num_keys: "group_keys ?col1 ?prod = group_keys ?col1 data"
  proof -
    have "set (map (\<lambda>row. project (?keep @ ?lo) ?col1 (fst row)) (map ?hm (sort_key ?km ?Pm)))
            = (\<lambda>p. project ?ns ?col1 (fst p)) ` fst ` set ?A"
      by (simp add: image_image project_project[OF sub1P])
    also have "\<dots> = set (map (\<lambda>r. project ?ns ?col1 (fst r)) (rows data))"
      unfolding fstA by simp
    finally have "sort (remdups (map (\<lambda>row. project (?keep @ ?lo) ?col1 (fst row)) (map ?hm (sort_key ?km ?Pm))))
            = sort (remdups (map (\<lambda>r. project ?ns ?col1 (fst r)) (rows data)))"
      by (rule sort_remdups_cong)
    then show ?thesis by (simp add: group_keys_def)
  qed
  have num_vals: "sum_list (group_values ?col1 ?prod g) = ?N g" for g
  proof -
    have "sum_list (group_values ?col1 ?prod g)
            = sum_list (map (\<lambda>p. snd (fst p) * snd (snd p))
                 (filter (\<lambda>p. project ?ns ?col1 (fst (fst p)) = g) (sort_key ?km ?Pm)))"
      by (simp add: group_values_def filter_map comp_def project_project[OF sub1P])
    also have "\<dots> = sum_list (map (\<lambda>p. snd (fst p) * snd (snd p))
                 (filter (\<lambda>p. project ?ns ?col1 (fst (fst p)) = g) ?Pm))"
      by (rule sum_list_filter_sort)
    also have "\<dots> = ?N g"
      by (simp add: filter_map comp_def)
    finally show ?thesis .
  qed
  have den_keys: "group_keys ?col2 ?w1 = sort (remdups (map (\<lambda>q. project ?ns ?col2 (fst q)) (rows weight)))"
    by (simp add: group_keys_def comp_def project_project[OF sub2k])
  have den_vals: "sum_list (group_values ?col2 ?w1 h) = ?D h" for h
    by (simp add: group_values_def filter_map comp_def project_project[OF sub2k])
  let ?numkeys = "group_keys ?col1 data"
  let ?denkeys = "group_keys ?col2 ?w1"
  let ?num = "\<lparr>index_names = ?col1, rows = map (\<lambda>g. (g, ?N g)) ?numkeys\<rparr>"
  let ?den = "\<lparr>index_names = ?col2, rows = map (\<lambda>h. (h, ?D h)) ?denkeys\<rparr>"
  have num: "groupby ?prod ?col1 np_sum = Inr ?num"
    using col1 by (simp add: groupby_def groupby_agg_def num_keys num_vals)
  have den: "groupby ?w1 ?col2 np_sum = Inr ?den"
    using col2 by (simp add: groupby_def groupby_agg_def den_vals)
  have partner: "project ?col1 ?col2 g \<in> set ?denkeys" if "g \<in> set ?numkeys" for g
  proof -
    from that obtain r where r: "r \<in> set (rows data)" "g = project ?ns ?col1 (fst r)"
      by (auto simp add: group_keys_def)
    then obtain i where i: "i < length (rows data)" "rows data ! i = r"
      by (auto simp add: in_set_conv_nth)
    have "project ?col1 ?col2 g = project ?ns ?col2 (fst r)"
      using r(2) by (simp add: project_project[OF sub21])
    also have "\<dots> = project ?keep ?col2 (project ?ns ?keep (fst r))"
      by (simp add: project_project[OF sub2k])
    also have "\<dots> = project ?keep ?col2 (project ?ns ?keep (fst (rows weight ! i)))"
      using key_i[OF i(1)] i(2) by simp
    also have "\<dots> = project ?ns ?col2 (fst (rows weight ! i))"
      by (simp add: project_project[OF sub2k])
    finally have "project ?col1 ?col2 g = project ?ns ?col2 (fst (rows weight ! i))" .
    moreover have "rows weight ! i \<in> set (rows weight)"
      using i(1) len by simp
    ultimately show ?thesis
      unfolding den_keys by auto
  qed
  have dk: "distinct ?denkeys"
    by (simp add: group_keys_def)
  have self: "project ?col2 ?col2 h = h" if "h \<in> set ?denkeys" for h
  proof -
    from that obtain q where "h = project ?ns ?col2 (fst q)"
      unfolding den_keys by auto
    then show ?thesis by (simp add: project_project)
  qed
  have common_d: "filter (\<lambda>n. n \<in> set ?col2) ?col1 = ?col2"
    by (rule filter_common) simp
  have left_d: "filter (\<lambda>n. n \<notin> set ?col2) ?col1 = ?lo1"
    by (rule filter_cong[OF refl]) (auto simp add: set_difference)
  let ?G = "\<lambda>g. ((g, ?N g), (project ?col1 ?col2 g, ?D (project ?col1 ?col2 g)))"
  have pairs_d: "concat (map (\<lambda>r. map (\<lambda>q. (r, q))
                                 (filter (\<lambda>q. project ?col2 ?col2 (fst q) = project ?col1 ?col2 (fst r))
                                    (map (\<lambda>h. (h, ?D h)) ?denkeys)))
                            (map (\<lambda>g. (g, ?N g)) ?numkeys)) = map ?G ?numkeys"
  proof -
    have one: "map (\<lambda>q. ((g, ?N g), q))
                 (filter (\<lambda>q. project ?col2 ?col2 (fst q) = project ?col1 ?col2 g)
                    (map (\<lambda>h. (h, ?D h)) ?denkeys)) = [?G g]"
      if "g \<in> set ?numkeys" for g
    proof -
      have "filter (\<lambda>q. project ?col2 ?col2 (fst q) = project ?col1 ?col2 g) (map (\<lambda>h. (h, ?D h)) ?denkeys)
              = filter (\<lambda>q. fst q = project ?col1 ?col2 g) (map (\<lambda>h. (h, ?D h)) ?denkeys)"
        by (rule filter_cong[OF refl]) (auto simp add: self)
      also have "\<dots> = [(project ?col1 ?col2 g, ?D (project ?col1 ?col2 g))]"
        by (rule filter_keyed[OF dk partner[OF that]])
      finally show ?thesis by simp
    qed
    have "concat (map (\<lambda>g. map (\<lambda>q. ((g, ?N g), q))
                          (filter (\<lambda>q. project ?col2 ?col2 (fst q) = project ?col1 ?col2 g)
                             (map (\<lambda>h. (h, ?D h)) ?denkeys))) ?numkeys)
            = concat (map (\<lambda>g. [?G g]) ?numkeys)"
      by (rule arg_cong[where f = concat], rule map_cong[OF refl]) (rule one)
    then show ?thesis by (simp add: comp_def)
  qed
  have div: "series_div ?num ?den
               = \<lparr>index_names = ?col2 @ ?lo1,
                  rows = map (\<lambda>g. (project ?col1 (?col2 @ ?lo1) g,
                                   float_div (?N g) (?D (project ?col1 ?col2 g))))
                           (sort_key (project ?col1 ?col2) ?numkeys)\<rparr>"
    unfolding series_div_def align_with_def Let_def frame.simps common_d left_d pairs_d
    by (simp add: sort_key_map comp_def)
  have run: "agg_weight data weight m = Inr (series_div ?num ?den)"
    using sum dw dd eq mul num den by (simp add: agg_weight_def Let_def)
  have first: "agg_weight data weight m =
           Inr \<lparr>index_names = spec_result_levels ?ns,
                rows = map (\<lambda>g. (project ?col1 (spec_result_levels ?ns) g,
                                 spec_weighted_average data weight g))
                         (sort_key (project ?col1 ?col2) ?numkeys)\<rparr>"
    unfolding run div by (simp add: spec_weighted_average_def spec_result_levels_def Let_def)
  have second: "spec_aligned_rows data weight = zip (rows data) (rows weight)"
    if dist: "distinct (dropped_index weight)"
  proof -
    let ?f = "\<lambda>q::key \<times> real. project ?ns ?keep (fst q)"
    from dist have d: "distinct (map ?f (rows weight))"
      by (simp add: dropped_index_def names)
    have "concat (map (\<lambda>r. map (\<lambda>q. (r, q)) (filter (\<lambda>q. ?f q = ?f r) (rows weight))) (rows data))
            = zip (rows data) (rows weight)"
    proof (rule concat_singletons)
      show "length (zip (rows data) (rows weight)) = length (rows data)"
        using len by simp
      fix i assume i: "i < length (rows data)"
      with len have iw: "i < length (rows weight)" by simp
      have "filter (\<lambda>q. ?f q = ?f (rows weight ! i)) (rows weight) = [rows weight ! i]"
        by (rule filter_distinct_on[OF d iw])
      then have "filter (\<lambda>q. ?f q = ?f (rows data ! i)) (rows weight) = [rows weight ! i]"
        using key_i[OF i] by simp
      then show "map (\<lambda>q. (rows data ! i, q)) (filter (\<lambda>q. ?f q = ?f (rows data ! i)) (rows weight))
                   = [zip (rows data) (rows weight) ! i]"
        using i iw by simp
    qed
    then show ?thesis by (simp add: spec_aligned_rows_def Let_def)
  qed
  from first second show ?thesis by blast
qed

theorem agg_weight_weighted_average_witness:
  "index_names ex_pop = index_names ex_price
   \<and> is_sum (Name ''sum'')
   \<and> dropped_index ex_pop = dropped_index ex_price
   \<and> distinct (dropped_index ex_pop)
   \<and> spec_aligned_rows ex_price ex_pop = zip (rows ex_price) (rows ex_pop)
   \<and> spec_weighted_average ex_price ex_pop [S ''model_a'', S ''scen_a'', S ''Price'', S ''USD'', I 2005]
       = Fin (35 / 2)
   \<and> agg_weight ex_price ex_pop (Name ''sum'')
       = Inr \<lparr>index_names = [''model'', ''scenario'', ''year'', ''variable'', ''unit''],
              rows = [([S ''model_a'', S ''scen_a'', I 2005, S ''Price'', S ''USD''], Fin (35 / 2))]\<rparr>
   \<and> agg_weight ex_price ex_nopop (Name ''sum'')
       = Inr \<lparr>index_names = [''model'', ''scenario'', ''year'', ''variable'', ''unit''],
              rows = [([S ''model_a'', S ''scen_a'', I 2005, S ''Price'', S ''USD''], NaN)]\<rparr>"
proof -
  have h1: "index_names ex_pop = index_names ex_price" by code_simp
  have h2: "set [''model'', ''variable'', ''unit''] \<subseteq> set (index_names ex_price)" by code_simp
  have h3: "is_sum (Name ''sum'')" by simp
  have h4: "dropped_index ex_pop = dropped_index ex_price" by code_simp
  have h5: "distinct (dropped_index ex_pop)" by code_simp
  have g1: "index_names ex_nopop = index_names ex_price" by code_simp
  have g4: "dropped_index ex_nopop = dropped_index ex_price" by code_simp
  have k: "sort_key (project (difference (index_names ex_price) [''region''])
                       (difference (index_names ex_price) [''region'', ''variable'', ''unit'']))
             (group_keys (difference (index_names ex_price) [''region'']) ex_price)
             = [[S ''model_a'', S ''scen_a'', S ''Price'', S ''USD'', I 2005]]"
    by code_simp
  have n: "spec_result_levels (index_names ex_price)
             = [''model'', ''scenario'', ''year'', ''variable'', ''unit'']"
    by code_simp
  have p: "project (difference (index_names ex_price) [''region''])
             [''model'', ''scenario'', ''year'', ''variable'', ''unit'']
             [S ''model_a'', S ''scen_a'', S ''Price'', S ''USD'', I 2005]
             = [S ''model_a'', S ''scen_a'', I 2005, S ''Price'', S ''USD'']"
    by code_simp
  have v: "spec_weighted_average ex_price ex_pop [S ''model_a'', S ''scen_a'', S ''Price'', S ''USD'', I 2005]
             = Fin (35 / 2)"
    by code_simp
  have u: "spec_weighted_average ex_price ex_nopop [S ''model_a'', S ''scen_a'', S ''Price'', S ''USD'', I 2005]
             = NaN"
    by code_simp
  note a = agg_weight_weighted_average[OF h1 h2 h3 h4]
  from a have a1: "agg_weight ex_price ex_pop (Name ''sum'')
       = Inr \<lparr>index_names = [''model'', ''scenario'', ''year'', ''variable'', ''unit''],
              rows = [([S ''model_a'', S ''scen_a'', I 2005, S ''Price'', S ''USD''], Fin (35 / 2))]\<rparr>"
    by (simp only: k n p v list.map)
  from a h5 have a2: "spec_aligned_rows ex_price ex_pop = zip (rows ex_price) (rows ex_pop)"
    by blast
  from agg_weight_weighted_average[OF g1 h2 h3 g4]
  have a3: "agg_weight ex_price ex_nopop (Name ''sum'')
       = Inr \<lparr>index_names = [''model'', ''scenario'', ''year'', ''variable'', ''unit''],
              rows = [([S ''model_a'', S ''scen_a'', I 2005, S ''Price'', S ''USD''], NaN)]\<rparr>"
    by (simp only: k n p u list.map)
  from h1 h3 h4 h5 v a1 a2 a3 show ?thesis by blast
qed

text \<open>
  C4, where the code departs from the claim: the default components are read from the
  column \<^verbatim>\<open>subannual\<close>, not from the given \<open>column\<close>. On data with the time slices in a
  column \<^verbatim>\<open>season\<close> and no column \<^verbatim>\<open>subannual\<close> the call with the components omitted raises
  an attribute error, while the call with the labels of the column (winter, summer) gives
  the sum 3 at the label \<^verbatim>\<open>year\<close>. On data with both columns, the omitted components are
  the labels of \<^verbatim>\<open>subannual\<close> (winter only), and the result is 1 instead of 3.
\<close>

theorem aggregate_time_default_components:
  "aggregate_time ex_seasons (Single ''Price'') ''season'' ''year'' None (Func np_sum)
     = Inl (AttributeError ''subannual'')
   \<and> aggregate_time ex_seasons (Single ''Price'') ''season'' ''year'' (Some [''winter'', ''summer'']) (Func np_sum)
     = Inr \<lparr>index_names = ex_names @ [''season''],
            rows = [(ex_key ''World'' ''Price'' ''USD'' @ [S ''year''], 3)]\<rparr>
   \<and> aggregate_time ex_slices (Single ''Price'') ''season'' ''year'' None (Func np_sum)
     = Inr \<lparr>index_names = ex_names @ [''subannual'', ''season''],
            rows = [(ex_key ''World'' ''Price'' ''USD'' @ [S ''winter'', S ''year''], 1)]\<rparr>
   \<and> aggregate_time ex_slices (Single ''Price'') ''season'' ''year'' (Some [''winter'', ''summer'']) (Func np_sum)
     = Inr \<lparr>index_names = ex_names @ [''subannual'', ''season''],
            rows = [(ex_key ''World'' ''Price'' ''USD'' @ [S ''winter'', S ''year''], 3)]\<rparr>"
  by code_simp

text \<open>
  C5: the variable aggregator called with a list of variables and an explicit list of
  components, and the region aggregator called with a list of variables and components
  other than \<^verbatim>\<open>False\<close>, or with a weight and components other than \<^verbatim>\<open>False\<close>, raise the
  invalid-argument error (in the code a \<^verbatim>\<open>ValueError\<close> with the message of the conflict),
  whatever the data: nothing is logged and nothing of the data is read. With a weight, a
  list of variables and components the first of the two checks raises.
\<close>

theorem argument_conflicts_raise:
  "(\<forall>df vs cs m.
      aggregate df (Listable vs) (Some cs) m =
        ([], Inl (ValueError ''Aggregating by list of variables does not support `components`!'')))
   \<and> (\<forall>df vs region subregions components m weight.
        components \<noteq> CFalse \<longrightarrow>
          aggregate_region df (Listable vs) region subregions components m weight =
            ([], Inl (ValueError ''Aggregating by list of variables with components is not supported!'')))
   \<and> (\<forall>df v region subregions components m w.
        components \<noteq> CFalse \<longrightarrow>
          aggregate_region df (Single v) region subregions components m (Some w) =
            ([], Inl (ValueError ''Using weights and components in one operation not supported!'')))
   \<and> (\<forall>df variable region subregions components m w.
        components \<noteq> CFalse \<longrightarrow>
          (\<exists>msg. aggregate_region df variable region subregions components m (Some w) =
            ([], Inl (ValueError msg))))"
  by (simp add: aggregate_def aggregate_region_def)

theorem argument_conflicts_raise_witness:
  "aggregate ex_children (Listable [''A'']) (Some [''A|B'']) (Func np_sum) =
        ([], Inl (ValueError ''Aggregating by list of variables does not support `components`!''))
   \<and> CTrue \<noteq> CFalse
   \<and> aggregate_region ex_regions (Listable [''Price'']) ''World'' None CTrue (Name ''sum'') None =
        ([], Inl (ValueError ''Aggregating by list of variables with components is not supported!''))
   \<and> aggregate_region ex_regions (Single ''Price'') ''World'' None CTrue (Name ''sum'') (Some (Single ''Pop'')) =
        ([], Inl (ValueError ''Using weights and components in one operation not supported!''))"
  using argument_conflicts_raise by simp

text \<open>
  C6: the weighted region aggregator raises the invalid-argument error (a \<^verbatim>\<open>ValueError\<close>
  that allows \<^verbatim>\<open>np.sum\<close> only) for every method that is neither the string \<^verbatim>\<open>"sum"\<close> nor
  the function \<^verbatim>\<open>np.sum\<close>, such as \<^verbatim>\<open>"mean"\<close>; for the sum, when data and weight have the
  variable and unit levels and their indexes without these two levels differ, it raises
  the inconsistent-index error (a \<^verbatim>\<open>ValueError\<close> with that message).
\<close>

theorem agg_weight_refusals:
  "(\<not> is_sum m \<longrightarrow>
      agg_weight data weight m = Inl (ValueError ''Only method 'np.sum' allowed for weighted average!''))
   \<and> agg_weight data weight (Name ''mean'') =
        Inl (ValueError ''Only method 'np.sum' allowed for weighted average!'')
   \<and> (is_sum m \<and> set [''variable'', ''unit''] \<subseteq> set (index_names data)
        \<and> set [''variable'', ''unit''] \<subseteq> set (index_names weight)
        \<and> dropped_index weight \<noteq> dropped_index data \<longrightarrow>
      agg_weight data weight m = Inl (ValueError ''Inconsistent index between variable and weight!''))"
proof (intro conjI impI)
  show "agg_weight data weight m = Inl (ValueError ''Only method 'np.sum' allowed for weighted average!'')"
    if "\<not> is_sum m"
    using that by (simp add: agg_weight_def)
  show "agg_weight data weight (Name ''mean'') =
        Inl (ValueError ''Only method 'np.sum' allowed for weighted average!'')"
    by (simp add: agg_weight_def)
  show "agg_weight data weight m = Inl (ValueError ''Inconsistent index between variable and weight!'')"
    if a: "is_sum m \<and> set [''variable'', ''unit''] \<subseteq> set (index_names data)
        \<and> set [''variable'', ''unit''] \<subseteq> set (index_names weight)
        \<and> dropped_index weight \<noteq> dropped_index data"
  proof -
    from a obtain d1 where d1: "droplevel data [''variable'', ''unit''] = Inr d1"
      "map fst (rows d1) = dropped_index data"
      using droplevel_index[of data] by blast
    from a obtain w1 where w1: "droplevel weight [''variable'', ''unit''] = Inr w1"
      "map fst (rows w1) = dropped_index weight"
      using droplevel_index[of weight] by blast
    from a d1 w1 show ?thesis
      by (auto simp add: agg_weight_def index_equals_def)
  qed
qed

theorem agg_weight_refusals_witness:
  "\<not> is_sum (Name ''mean'')
   \<and> agg_weight ex_price ex_pop (Name ''mean'')
       = Inl (ValueError ''Only method 'np.sum' allowed for weighted average!'')
   \<and> is_sum (Name ''sum'')
   \<and> dropped_index (ex_pop\<lparr>rows := rev (rows ex_pop)\<rparr>) \<noteq> dropped_index ex_price
   \<and> agg_weight ex_price (ex_pop\<lparr>rows := rev (rows ex_pop)\<rparr>) (Name ''sum'')
       = Inl (ValueError ''Inconsistent index between variable and weight!'')"
proof -
  have h1: "is_sum (Name ''sum'')" by simp
  have h2: "set [''variable'', ''unit''] \<subseteq> set (index_names ex_price)" by code_simp
  have h3: "set [''variable'', ''unit''] \<subseteq> set (index_names (ex_pop\<lparr>rows := rev (rows ex_pop)\<rparr>))"
    by code_simp
  have h4: "dropped_index (ex_pop\<lparr>rows := rev (rows ex_pop)\<rparr>) \<noteq> dropped_index ex_price"
    by code_simp
  from agg_weight_refusals[of "Name ''sum''" ex_price "ex_pop\<lparr>rows := rev (rows ex_pop)\<rparr>"] h1 h2 h3 h4
  have "agg_weight ex_price (ex_pop\<lparr>rows := rev (rows ex_pop)\<rparr>) (Name ''sum'')
       = Inl (ValueError ''Inconsistent index between variable and weight!'')"
    by blast
  moreover from agg_weight_refusals[of "Name ''mean''" ex_price ex_pop]
  have "agg_weight ex_price ex_pop (Name ''mean'')
       = Inl (ValueError ''Only method 'np.sum' allowed for weighted average!'')"
    by blast
  ultimately show ?thesis using h1 h4 by simp
qed

text \<open>
  C7: the variable aggregator for a single variable, with the components omitted or
  empty and no component of the variable in the data, and the region aggregator, with an
  admissible combination of arguments, the subregions omitted or empty and no other
  region that has data for the variable, do not raise: each logs one informational
  message and returns \<^verbatim>\<open>None\<close>.
\<close>

theorem nothing_to_aggregate:
  "((components = None \<or> components = Some []) \<and> variable_components df v (Some 0) = [] \<longrightarrow>
      aggregate df (Single v) components m = ([no_components_msg v], Inr None))
   \<and> ((isstr variable \<or> comps = CFalse) \<and> (weight = None \<or> comps = CFalse)
        \<and> (subregions = None \<or> subregions = Some [])
        \<and> all_other_regions df region variable = [] \<longrightarrow>
      aggregate_region df variable region subregions comps m weight =
        ([no_subregions_msg variable region], Inr None))"
  by (auto simp add: aggregate_def aggregate_region_def)

theorem nothing_to_aggregate_witness:
  "variable_components ex_children ''A|B'' (Some 0) = []
   \<and> aggregate ex_children (Single ''A|B'') None (Func np_sum) = ([no_components_msg ''A|B''], Inr None)
   \<and> all_other_regions ex_regions ''World'' (Single ''Demand'') = []
   \<and> aggregate_region ex_regions (Single ''Demand'') ''World'' None CFalse (Name ''sum'') None
       = ([no_subregions_msg (Single ''Demand'') ''World''], Inr None)
   \<and> no_subregions_msg (Single ''Demand'') ''World''
       = ''Cannot aggregate variable 'Demand' to 'World' because it does not exist in any subregion!''"
proof -
  have h1: "variable_components ex_children ''A|B'' (Some 0) = []" by code_simp
  have h2: "all_other_regions ex_regions ''World'' (Single ''Demand'') = []" by code_simp
  have h3: "no_subregions_msg (Single ''Demand'') ''World''
       = ''Cannot aggregate variable 'Demand' to 'World' because it does not exist in any subregion!''"
    by code_simp
  from nothing_to_aggregate[where components = None and df = ex_children and v = "''A|B''"
      and m = "Func np_sum"] h1
  have a: "aggregate ex_children (Single ''A|B'') None (Func np_sum) = ([no_components_msg ''A|B''], Inr None)"
    by blast
  from nothing_to_aggregate[where variable = "Single ''Demand''" and comps = CFalse and weight = None
      and subregions = None and df = ex_regions and region = "''World''" and m = "Name ''sum''"] h2
  have b: "aggregate_region ex_regions (Single ''Demand'') ''World'' None CFalse (Name ''sum'') None
       = ([no_subregions_msg (Single ''Demand'') ''World''], Inr None)"
    by simp
  from h1 h2 h3 a b show ?thesis by simp
qed

text \<open>
  C8: for a string in the table of known names the resolver returns the table's reduction;
  for a string outside the table, such as "bogus", it raises the unknown-method error
  (in the code a \<^verbatim>\<open>ValueError\<close> whose message names the method); a non-string is returned
  unchanged.
\<close>

theorem get_method_func_resolves:
  "(\<forall>s f. map_of KNOWN_FUNCS s = Some f \<longrightarrow> get_method_func (Name s) = Inr f)
   \<and> (\<forall>s. map_of KNOWN_FUNCS s = None \<longrightarrow>
          get_method_func (Name s) = Inl (ValueError (quoted s @ '' is not a known method!'')))
   \<and> get_method_func (Name ''bogus'') = Inl (ValueError (quoted ''bogus'' @ '' is not a known method!''))
   \<and> (\<forall>f. get_method_func (Func f) = Inr f)"
  by (simp add: get_method_func_def KNOWN_FUNCS_def)

theorem get_method_func_resolves_witness:
  "map_of KNOWN_FUNCS ''sum'' = Some np_sum \<and> get_method_func (Name ''sum'') = Inr np_sum
   \<and> map_of KNOWN_FUNCS ''bogus'' = None
   \<and> get_method_func (Name ''bogus'') = Inl (ValueError (CHR 0x27 # ''bogus'' @ CHR 0x27 # '' is not a known method!''))
   \<and> get_method_func (Func np_mean) = Inr np_mean"
  using get_method_func_resolves by (simp add: KNOWN_FUNCS_def quoted_def)

text \<open>
  C9: the region aggregator called with an empty list of subregions is the region
  aggregator called without subregions, for every data and every other argument.
\<close>

theorem region_empty_subregions_default:
  "aggregate_region df variable region (Some []) components m weight
     = aggregate_region df variable region None components m weight"
  by (simp add: aggregate_region_def)

theorem region_empty_subregions_default_witness:
  "aggregate_region ex_regions (Single ''Price'') ''World'' (Some []) CFalse (Name ''sum'') None
     = ([], Inr (Some \<lparr>index_names = [''model'', ''scenario'', ''variable'', ''unit'', ''year''],
                       rows = [([S ''model_a'', S ''scen_a'', S ''Price'', S ''USD'', I 2005], Fin 30)]\<rparr>))"
proof -
  have "aggregate_region ex_regions (Single ''Price'') ''World'' None CFalse (Name ''sum'') None
     = ([], Inr (Some \<lparr>index_names = [''model'', ''scenario'', ''variable'', ''unit'', ''year''],
                       rows = [([S ''model_a'', S ''scen_a'', S ''Price'', S ''USD'', I 2005], Fin 30)]\<rparr>))"
    by code_simp
  then show ?thesis
    by (simp only: region_empty_subregions_default)
qed

text \<open>
  C10: for a list of variables the variable aggregator never returns \<^verbatim>\<open>None\<close>. It logs one
  message for each variable of the list that has no components, in order, and its result
  is the result for the list without these variables. When no variable of the list has
  components it groups an empty selection of rows, which is an empty series (once the
  method resolves and the data has a level); a single variable without components
  returns \<^verbatim>\<open>None\<close> instead.
\<close>

theorem list_variables_skip_missing:
  "snd (aggregate df (Listable vs) None m) \<noteq> Inr None
   \<and> fst (aggregate df (Listable vs) None m)
       = map no_components_msg (filter (\<lambda>v. variable_components df v (Some 0) = []) vs)
   \<and> snd (aggregate df (Listable vs) None m)
       = snd (aggregate df (Listable (filter (\<lambda>v. variable_components df v (Some 0) \<noteq> []) vs)) None m)
   \<and> ((\<forall>v\<in>set vs. variable_components df v (Some 0) = []) \<longrightarrow>
        aggregate df (Listable vs) None m
          = (map no_components_msg vs,
             map_sum id Some (group_and_agg (df\<lparr>rows := []\<rparr>) (Listable []) m)))
   \<and> ((\<forall>v\<in>set vs. variable_components df v (Some 0) = []) \<and> index_names df \<noteq> []
        \<and> get_method_func m = Inr f \<longrightarrow>
        aggregate df (Listable vs) None m
          = (map no_components_msg vs, Inr (Some \<lparr>index_names = index_names df, rows = []\<rparr>)))
   \<and> (variable_components df v (Some 0) = [] \<longrightarrow>
        aggregate df (Single v) None m = ([no_components_msg v], Inr None))"
proof (intro conjI impI)
  show "snd (aggregate df (Listable vs) None m) \<noteq> Inr None"
    by (cases "group_and_agg (set_index (select df (apply_filters df ''variable'' (map fst (snd (add_components df vs ([], []))))))
            (replace_index_values (select df (apply_filters df ''variable'' (map fst (snd (add_components df vs ([], []))))))
               ''variable'' (snd (add_components df vs ([], []))))) (Listable []) m")
       (simp_all add: aggregate_listable Let_def)
  show "fst (aggregate df (Listable vs) None m)
       = map no_components_msg (filter (\<lambda>v. variable_components df v (Some 0) = []) vs)"
    by (simp add: aggregate_listable add_components_msgs)
  show "snd (aggregate df (Listable vs) None m)
       = snd (aggregate df (Listable (filter (\<lambda>v. variable_components df v (Some 0) \<noteq> []) vs)) None m)"
    using add_components_skip[of df vs "[]" "[]" "[]"] by (simp add: aggregate_listable)
next
  assume none: "\<forall>v\<in>set vs. variable_components df v (Some 0) = []"
  then show "aggregate df (Listable vs) None m
          = (map no_components_msg vs,
             map_sum id Some (group_and_agg (df\<lparr>rows := []\<rparr>) (Listable []) m))"
    by (simp add: aggregate_listable add_components_none apply_filters_select
        set_index_def replace_index_values_def)
next
  assume a: "(\<forall>v\<in>set vs. variable_components df v (Some 0) = []) \<and> index_names df \<noteq> []
        \<and> get_method_func m = Inr f"
  then show "aggregate df (Listable vs) None m
          = (map no_components_msg vs, Inr (Some \<lparr>index_names = index_names df, rows = []\<rparr>))"
    by (simp add: aggregate_listable add_components_none apply_filters_select
        set_index_def replace_index_values_def group_and_agg_def groupby_def groupby_agg_empty)
next
  assume "variable_components df v (Some 0) = []"
  then show "aggregate df (Single v) None m = ([no_components_msg v], Inr None)"
    by (simp add: aggregate_def)
qed

theorem list_variables_skip_missing_witness:
  "variable_components ex_children ''A|B'' (Some 0) = []
   \<and> variable_components ex_children ''X'' (Some 0) = []
   \<and> aggregate ex_children (Listable [''A|B'', ''X'']) None (Func np_sum)
       = ([no_components_msg ''A|B'', no_components_msg ''X''],
          Inr (Some \<lparr>index_names = ex_names, rows = []\<rparr>))
   \<and> aggregate ex_children (Single ''A|B'') None (Func np_sum) = ([no_components_msg ''A|B''], Inr None)
   \<and> aggregate ex_children (Listable [''X'', ''A'']) None (Func np_sum)
       = ([no_components_msg ''X''],
          Inr (Some \<lparr>index_names = ex_names, rows = [(ex_key ''World'' ''A'' ''EJ/yr'', 3)]\<rparr>))"
proof -
  have h1: "variable_components ex_children ''A|B'' (Some 0) = []" by code_simp
  have h2: "variable_components ex_children ''X'' (Some 0) = []" by code_simp
  have h3: "index_names ex_children \<noteq> []" by code_simp
  have h4: "get_method_func (Func np_sum) = Inr np_sum" by (simp add: get_method_func_def)
  have h5: "index_names ex_children = ex_names" by code_simp
  have h6: "aggregate ex_children (Listable [''X'', ''A'']) None (Func np_sum)
       = ([no_components_msg ''X''],
          Inr (Some \<lparr>index_names = ex_names, rows = [(ex_key ''World'' ''A'' ''EJ/yr'', 3)]\<rparr>))"
    by code_simp
  have none: "\<forall>v\<in>set [''A|B'', ''X'']. variable_components ex_children v (Some 0) = []"
    using h1 h2 by simp
  note inst = list_variables_skip_missing[of ex_children "[''A|B'', ''X'']" "Func np_sum" np_sum "''A|B''"]
  from inst none h3 h4
  have a: "aggregate ex_children (Listable [''A|B'', ''X'']) None (Func np_sum)
       = (map no_components_msg [''A|B'', ''X''],
          Inr (Some \<lparr>index_names = index_names ex_children, rows = []\<rparr>))"
    by blast
  from inst h1
  have b: "aggregate ex_children (Single ''A|B'') None (Func np_sum) = ([no_components_msg ''A|B''], Inr None)"
    by blast
  from a b h1 h2 h5 h6 show ?thesis by simp
qed

end
